theory Spec2Isabelle
  imports Main
begin

section \<open>Session store (backend/src/session-store.ts)\<close>

text \<open>
  The \<open>Session\<close> interface. Times are milliseconds since the epoch (\<open>Date.now()\<close>);
  JavaScript numbers are modelled as unbounded integers.
\<close>

datatype status = OPEN | JOINED | CLOSED

record session =
  session_id :: string
  expires_at :: int
  status :: status
  participant_count :: int
  created_at :: int

text \<open>
  The Redis client. A key holds the value written by the last \<open>SETEX\<close>, the number of
  seconds given to it and the instant of the write; \<open>GET\<close> answers nothing once that many
  seconds have passed. The stored value is \<open>JSON.stringify(session)\<close> and is read back with
  \<open>JSON.parse\<close>; the pair is the identity on a \<open>Session\<close>, so the entry holds the record
  itself. Every operation below runs at one reading \<open>now\<close> of the clock, which serves
  both \<open>Date.now()\<close> and the expiry of keys. \<open>SETEX\<close> expects a positive number of
  seconds; a store that cannot be reached is outside the model.
\<close>

record redis_entry =
  entry_value :: session
  entry_ttl :: int
  entry_set_at :: int

type_synonym redis = "string \<rightharpoonup> redis_entry"

definition redis_get :: "redis \<Rightarrow> int \<Rightarrow> string \<Rightarrow> session option" where
  "redis_get r now key =
     (case r key of
        None \<Rightarrow> None
      | Some e \<Rightarrow>
          if now < entry_set_at e + entry_ttl e * 1000 then Some (entry_value e) else None)"

definition redis_setEx :: "redis \<Rightarrow> int \<Rightarrow> string \<Rightarrow> int \<Rightarrow> session \<Rightarrow> redis" where
  "redis_setEx r now key seconds v =
     r(key \<mapsto> \<lparr>entry_value = v, entry_ttl = seconds, entry_set_at = now\<rparr>)"

definition redis_del :: "redis \<Rightarrow> string \<Rightarrow> redis" where
  "redis_del r key = r(key := None)"

definition getKey :: "string \<Rightarrow> string" where
  "getKey sessionId = ''session:'' @ sessionId"

definition createSession :: "redis \<Rightarrow> int \<Rightarrow> string \<Rightarrow> int \<Rightarrow> redis \<times> session" where
  "createSession r now sessionId expiresInSeconds =
     (let s = \<lparr>session_id = sessionId,
                expires_at = now + expiresInSeconds * 1000,
                status = OPEN,
                participant_count = 0,
                created_at = now\<rparr>
      in (redis_setEx r now (getKey sessionId) expiresInSeconds s, s))"

definition deleteSession :: "redis \<Rightarrow> string \<Rightarrow> redis" where
  "deleteSession r sessionId = redis_del r (getKey sessionId)"

definition getSession :: "redis \<Rightarrow> int \<Rightarrow> string \<Rightarrow> redis \<times> session option" where
  "getSession r now sessionId =
     (case redis_get r now (getKey sessionId) of
        None \<Rightarrow> (r, None)
      | Some s \<Rightarrow>
          if now > expires_at s then (deleteSession r sessionId, None)
          else (r, Some s))"

definition updateSession :: "redis \<Rightarrow> int \<Rightarrow> session \<Rightarrow> redis" where
  "updateSession r now s =
     (let ttl = max 1 ((expires_at s - now) div 1000)
      in if ttl > 0 then redis_setEx r now (getKey (session_id s)) ttl s
         else deleteSession r (session_id s))"

definition joinSession :: "redis \<Rightarrow> int \<Rightarrow> string \<Rightarrow> redis \<times> session option" where
  "joinSession r now sessionId =
     (case getSession r now sessionId of
        (r1, None) \<Rightarrow> (r1, None)
      | (r1, Some s) \<Rightarrow>
          if participant_count s \<ge> 2 then (r1, None)
          else
            let s1 = s\<lparr>participant_count := participant_count s + 1\<rparr>;
                s2 = (if participant_count s1 = 1 then s1\<lparr>status := JOINED\<rparr>
                      else if participant_count s1 = 2 then s1\<lparr>status := CLOSED\<rparr>
                      else s1)
            in (updateSession r1 now s2, Some s2))"

definition leaveSession :: "redis \<Rightarrow> int \<Rightarrow> string \<Rightarrow> redis" where
  "leaveSession r now sessionId =
     (case getSession r now sessionId of
        (r1, None) \<Rightarrow> r1
      | (r1, Some s) \<Rightarrow>
          let s1 = s\<lparr>participant_count := max 0 (participant_count s - 1)\<rparr>;
              s2 = (if participant_count s1 = 0 then s1\<lparr>status := OPEN\<rparr>
                    else if participant_count s1 = 1 then s1\<lparr>status := JOINED\<rparr>
                    else s1\<lparr>status := CLOSED\<rparr>)
          in updateSession r1 now s2)"

section \<open>Session control API (backend/src/session-api.ts)\<close>

definition DEFAULT_EXPIRY :: int where
  "DEFAULT_EXPIRY = 900"

definition MAX_EXPIRY :: int where
  "MAX_EXPIRY = 3600"

text \<open>
  \<open>req.body.expires_in_seconds || DEFAULT_EXPIRY\<close>: the field is absent (\<open>None\<close>) or an
  integer; \<open>||\<close> takes its right operand when the left one is falsy, which for a number
  means zero.
\<close>

definition or_default :: "int option \<Rightarrow> int \<Rightarrow> int" where
  "or_default v d = (case v of None \<Rightarrow> d | Some x \<Rightarrow> if x = 0 then d else x)"

record create_response =
  resp_status :: nat
  resp_session_id :: string
  resp_expires_at :: int
  resp_expires_in_seconds :: int

text \<open>
  The handler of \<open>POST /sessions\<close>; \<open>uuid\<close> is the identifier \<open>uuidv4()\<close> returns.
\<close>

definition post_sessions ::
  "redis \<Rightarrow> int \<Rightarrow> string \<Rightarrow> int option \<Rightarrow> redis \<times> create_response" where
  "post_sessions r now uuid expires_in_seconds =
     (let expiresInSeconds = min (or_default expires_in_seconds DEFAULT_EXPIRY) MAX_EXPIRY;
          sessionId = uuid;
          (r1, s) = createSession r now sessionId expiresInSeconds
      in (r1, \<lparr>resp_status = 201,
                resp_session_id = session_id s,
                resp_expires_at = expires_at s,
                resp_expires_in_seconds = expiresInSeconds\<rparr>))"

section \<open>Runs of store operations\<close>

datatype store_op =
    Create int string int
  | Get int string
  | Join int string
  | Leave int string
  | Delete string

fun apply_op :: "redis \<Rightarrow> store_op \<Rightarrow> redis" where
  "apply_op r (Create now sid n) = fst (createSession r now sid n)"
| "apply_op r (Get now sid) = fst (getSession r now sid)"
| "apply_op r (Join now sid) = fst (joinSession r now sid)"
| "apply_op r (Leave now sid) = leaveSession r now sid"
| "apply_op r (Delete sid) = deleteSession r sid"

definition run_ops :: "redis \<Rightarrow> store_op list \<Rightarrow> redis" where
  "run_ops r ops = foldl apply_op r ops"

text \<open>
  A sequence of \<open>joinSession\<close> calls on one identifier, at the given clock readings, with
  the result each call returns.
\<close>

fun join_all :: "redis \<Rightarrow> string \<Rightarrow> int list \<Rightarrow> redis \<times> session option list" where
  "join_all r sid [] = (r, [])"
| "join_all r sid (t # ts) =
     (case joinSession r t sid of
        (r1, res) \<Rightarrow> (case join_all r1 sid ts of (r2, rs) \<Rightarrow> (r2, res # rs)))"

definition status_of_count :: "int \<Rightarrow> status" where
  "status_of_count n = (if n = 0 then OPEN else if n = 1 then JOINED else CLOSED)"

definition session_ok :: "session \<Rightarrow> bool" where
  "session_ok s \<longleftrightarrow>
     0 \<le> participant_count s \<and> participant_count s \<le> 2 \<and>
     status s = status_of_count (participant_count s)"

definition store_ok :: "redis \<Rightarrow> bool" where
  "store_ok r \<longleftrightarrow> (\<forall>k e. r k = Some e \<longrightarrow> session_ok (entry_value e))"

text \<open>Repeated \<open>leaveSession\<close> calls on one identifier.\<close>

definition leave_all :: "redis \<Rightarrow> string \<Rightarrow> int list \<Rightarrow> redis" where
  "leave_all r sid ts = foldl (\<lambda>r1 t. leaveSession r1 t sid) r ts"

text \<open>
  The record under the key of \<open>sid\<close>, if there is one, carries that identifier and a
  count of at most two.
\<close>

definition key_ok :: "string \<Rightarrow> redis \<Rightarrow> bool" where
  "key_ok sid r \<longleftrightarrow>
     (\<forall>e. r (getKey sid) = Some e \<longrightarrow>
        session_id (entry_value e) = sid \<and> participant_count (entry_value e) \<le> 2)"

text \<open>
  The record under the key of \<open>sid\<close>, if there is one, carries that identifier and a
  count of 0.
\<close>

definition key_zero :: "string \<Rightarrow> redis \<Rightarrow> bool" where
  "key_zero sid r \<longleftrightarrow>
     (\<forall>e. r (getKey sid) = Some e \<longrightarrow>
        session_id (entry_value e) = sid \<and> participant_count (entry_value e) = 0)"

text \<open>
  \<open>joinSession\<close> is suspended at its awaits: between the read of the record and the write
  of the raised count, calls made on behalf of other callers may run. \<open>join_begin\<close> is
  the part up to the decision, with the record to be written; \<open>join_finish\<close> is the
  write. In an interleaving each caller holds the record it is about to write and to
  return.
\<close>

definition join_begin :: "redis \<Rightarrow> int \<Rightarrow> string \<Rightarrow> redis \<times> session option" where
  "join_begin r now sid =
     (case getSession r now sid of
        (r1, None) \<Rightarrow> (r1, None)
      | (r1, Some s) \<Rightarrow>
          if participant_count s \<ge> 2 then (r1, None)
          else
            let s1 = s\<lparr>participant_count := participant_count s + 1\<rparr>;
                s2 = (if participant_count s1 = 1 then s1\<lparr>status := JOINED\<rparr>
                      else if participant_count s1 = 2 then s1\<lparr>status := CLOSED\<rparr>
                      else s1)
            in (r1, Some s2))"

definition join_finish :: "redis \<Rightarrow> int \<Rightarrow> session \<Rightarrow> redis" where
  "join_finish r now s = updateSession r now s"

datatype join_event = Begin nat int | Finish nat int

fun join_interleave ::
  "string \<Rightarrow> redis \<times> (nat \<rightharpoonup> session) \<Rightarrow> join_event \<Rightarrow> redis \<times> (nat \<rightharpoonup> session)" where
  "join_interleave sid (r, held) (Begin c t) =
     (case join_begin r t sid of (r1, res) \<Rightarrow> (r1, held(c := res)))"
| "join_interleave sid (r, held) (Finish c t) =
     (case held c of
        None \<Rightarrow> (r, held)
      | Some s \<Rightarrow> (join_finish r t s, held(c := None)))"

definition held_ok :: "string \<Rightarrow> (nat \<rightharpoonup> session) \<Rightarrow> bool" where
  "held_ok sid held \<longleftrightarrow>
     (\<forall>c s. held c = Some s \<longrightarrow> session_id s = sid \<and> participant_count s \<le> 2)"

section \<open>Signaling relay (backend/src/signaling-service.ts)\<close>

text \<open>
  A \<open>WebSocket\<close> object is known by its identity. Its \<open>readyState\<close> belongs to the
  transport and changes without the relay's doing; the objects passed to \<open>send\<close> for
  an open socket are recorded per socket, in order. What \<open>ws.send\<close> is handed is
  \<open>JSON.stringify\<close> of each of them: see \<open>wire\<close> below.
\<close>

type_synonym websocket = nat

datatype ready_state = WS_CONNECTING | WS_OPEN | WS_CLOSING | WS_CLOSED

datatype role = initiator | responder

record client_info =
  sessionId :: string
  role :: role
  info_ws :: websocket
  authenticated :: bool

text \<open>
  \<open>SignalingMessage\<close>, as \<open>JSON.parse\<close> delivers it: the type tag is whatever string the
  client wrote, the other fields may be missing, and the payload is a value of a type
  \<open>'p\<close> about which the relay knows nothing.
\<close>

record 'p signaling_message =
  m_type :: string
  m_sessionId :: "string option"
  m_proof :: "string option"
  m_payload :: "'p option"

text \<open>
  What the relay passes to \<open>send\<close>: the objects it builds itself
  (\<open>{type: 'auth', payload: {success, role, participant_count}}\<close>,
  \<open>{type: 'ready', payload: {participants}}\<close>, \<open>{type: 'peer-left', payload: {}}\<close>,
  \<open>{type: 'error', payload: {error}}\<close>) and a message it received, passed on as the same
  object.
\<close>

datatype 'p frame =
    AuthOk bool role nat
  | Ready nat
  | PeerLeft
  | Error string
  | Forward "'p signaling_message"

text \<open>
  The service's fields \<open>clients\<close> and \<open>sessions\<close> and its \<open>store\<close>, with the state of
  the sockets. A \<open>Set<WebSocket>\<close> is the list of its members in insertion order, the
  order in which \<open>forEach\<close> visits them.
\<close>

record 'p relay =
  clients :: "websocket \<rightharpoonup> client_info"
  sessions :: "string \<rightharpoonup> websocket list"
  store :: redis
  readyState :: "websocket \<Rightarrow> ready_state"
  sent :: "websocket \<Rightarrow> 'p frame list"

definition set_add :: "websocket list \<Rightarrow> websocket \<Rightarrow> websocket list" where
  "set_add cs c = (if c \<in> set cs then cs else cs @ [c])"

definition send :: "'p relay \<Rightarrow> websocket \<Rightarrow> 'p frame \<Rightarrow> 'p relay" where
  "send st ws message =
     (if readyState st ws = WS_OPEN
      then st\<lparr>sent := (sent st)(ws := sent st ws @ [message])\<rparr>
      else st)"

definition sendError :: "'p relay \<Rightarrow> websocket \<Rightarrow> string \<Rightarrow> 'p relay" where
  "sendError st ws err = send st ws (Error err)"

definition send_each :: "'p relay \<Rightarrow> websocket list \<Rightarrow> 'p frame \<Rightarrow> 'p relay" where
  "send_each st cs message = foldl (\<lambda>s client. send s client message) st cs"

definition is_stale :: "'p relay \<Rightarrow> websocket \<Rightarrow> bool" where
  "is_stale st client \<longleftrightarrow>
     readyState st client = WS_CLOSED \<or> readyState st client = WS_CLOSING"

text \<open>
  \<open>handleAuth\<close>. The loop over \<open>sessionClients\<close> deletes the stale members from the set
  and from \<open>clients\<close> and counts them; the set is the object held in \<open>sessions\<close> when the
  session has an entry there, and a fresh one otherwise, which enters \<open>sessions\<close> only on
  success. A handler runs at one reading \<open>now\<close> of the clock and to its end before the
  next event is handled.
\<close>

definition handleAuth ::
  "'p relay \<Rightarrow> int \<Rightarrow> websocket \<Rightarrow> 'p signaling_message \<Rightarrow> 'p relay" where
  "handleAuth st now ws message =
     (case m_sessionId message of
        None \<Rightarrow> sendError st ws ''Missing session ID''
      | Some sid \<Rightarrow>
          if sid = [] then sendError st ws ''Missing session ID''
          else
            (case getSession (store st) now sid of
               (r1, None) \<Rightarrow> sendError (st\<lparr>store := r1\<rparr>) ws ''Session expired or not found''
             | (r1, Some existingSession) \<Rightarrow>
                 let registered = (case sessions st sid of None \<Rightarrow> [] | Some cs \<Rightarrow> cs);
                     sessionClients = filter (\<lambda>client. \<not> is_stale st client) registered;
                     cleanedCount = length (filter (is_stale st) registered);
                     r2 = ((\<lambda>r. leaveSession r now sid) ^^ cleanedCount) r1;
                     st2 = st\<lparr>clients := (\<lambda>client. if client \<in> set registered \<and> is_stale st client
                                                     then None else clients st client),
                              sessions := (case sessions st sid of
                                             None \<Rightarrow> sessions st
                                           | Some cs \<Rightarrow> (sessions st)(sid \<mapsto> sessionClients)),
                              store := r2\<rparr>
                 in if length sessionClients \<ge> 2 then sendError st2 ws ''Session is full''
                    else
                      (case joinSession r2 now sid of
                         (r3, None) \<Rightarrow> sendError (st2\<lparr>store := r3\<rparr>) ws ''Session is full''
                       | (r3, Some s) \<Rightarrow>
                           let new_role = (if length sessionClients = 0 then initiator else responder);
                               clientInfo = \<lparr>sessionId = sid, role = new_role, info_ws = ws,
                                             authenticated = True\<rparr>;
                               members = set_add sessionClients ws;
                               st3 = st2\<lparr>clients := (clients st2)(ws \<mapsto> clientInfo),
                                        sessions := (sessions st2)(sid \<mapsto> members),
                                        store := r3\<rparr>;
                               st4 = send st3 ws (AuthOk True new_role (length members))
                           in if length members = 2 then send_each st4 members (Ready 2)
                              else st4)))"

definition relayMessage ::
  "'p relay \<Rightarrow> websocket \<Rightarrow> 'p signaling_message \<Rightarrow> 'p relay" where
  "relayMessage st ws message =
     (case clients st ws of
        None \<Rightarrow> sendError st ws ''Not authenticated''
      | Some clientInfo \<Rightarrow>
          if \<not> authenticated clientInfo then sendError st ws ''Not authenticated''
          else
            (case sessions st (sessionId clientInfo) of
               None \<Rightarrow> sendError st ws ''Session not found''
             | Some sessionClients \<Rightarrow>
                 foldl (\<lambda>s client.
                          if client \<noteq> ws \<and> readyState s client = WS_OPEN
                          then send s client (Forward message) else s)
                   st sessionClients))"

text \<open>
  \<open>handleDisconnect\<close>. The call of \<open>leaveSession\<close> is not awaited; its effect on the store
  is taken at once.
\<close>

definition handleDisconnect :: "'p relay \<Rightarrow> int \<Rightarrow> websocket \<Rightarrow> 'p relay" where
  "handleDisconnect st now ws =
     (case clients st ws of
        None \<Rightarrow> st
      | Some clientInfo \<Rightarrow>
          (case sessions st (sessionId clientInfo) of
             None \<Rightarrow> st\<lparr>clients := (clients st)(ws := None)\<rparr>
           | Some cs \<Rightarrow>
               let sessionClients = removeAll ws cs;
                   st1 = st\<lparr>sessions := (sessions st)(sessionId clientInfo \<mapsto> sessionClients)\<rparr>;
                   st2 = send_each st1 sessionClients PeerLeft;
                   st3 = (if length sessionClients = 0
                          then st2\<lparr>sessions := (sessions st2)(sessionId clientInfo := None)\<rparr>
                          else st2);
                   st4 = st3\<lparr>store := leaveSession (store st3) now (sessionId clientInfo)\<rparr>
               in st4\<lparr>clients := (clients st4)(ws := None)\<rparr>))"

definition handleMessage ::
  "'p relay \<Rightarrow> int \<Rightarrow> websocket \<Rightarrow> 'p signaling_message \<Rightarrow> 'p relay" where
  "handleMessage st now ws message =
     (if m_type message = ''auth'' then handleAuth st now ws message
      else if m_type message = ''offer'' \<or> m_type message = ''answer''
              \<or> m_type message = ''ice-candidate''
      then relayMessage st ws message
      else sendError st ws ''Unknown message type'')"

text \<open>
  What reaches the service: a message on a socket, as \<open>JSON.parse\<close> returned it, the
  close event of a socket, and a change of a socket's \<open>readyState\<close>, of which the
  service hears nothing.
\<close>

datatype 'p event =
    Message int websocket "'p signaling_message"
  | Close int websocket
  | Transport websocket ready_state

fun relay_step :: "'p relay \<Rightarrow> 'p event \<Rightarrow> 'p relay" where
  "relay_step st (Message now ws message) = handleMessage st now ws message"
| "relay_step st (Close now ws) = handleDisconnect st now ws"
| "relay_step st (Transport ws rs) = st\<lparr>readyState := (readyState st)(ws := rs)\<rparr>"

definition relay_run :: "'p relay \<Rightarrow> 'p event list \<Rightarrow> 'p relay" where
  "relay_run st evs = foldl relay_step st evs"

definition relay_init :: "redis \<Rightarrow> 'p relay" where
  "relay_init r =
     \<lparr>clients = Map.empty, sessions = Map.empty, store = r,
      readyState = (\<lambda>ws. WS_OPEN), sent = (\<lambda>ws. [])\<rparr>"


text \<open>The \<open>auth\<close> message a client sends, here with a proof field as well.\<close>

definition auth_msg :: "string \<Rightarrow> string option \<Rightarrow> 'p signaling_message" where
  "auth_msg sid p = \<lparr>m_type = ''auth'', m_sessionId = Some sid, m_proof = p, m_payload = None\<rparr>"

text \<open>
  The lists in \<open>sessions\<close> stand for sets: no event puts a socket into one twice.
\<close>

definition sessions_distinct :: "'p relay \<Rightarrow> bool" where
  "sessions_distinct st \<longleftrightarrow> (\<forall>sid cs. sessions st sid = Some cs \<longrightarrow> distinct cs)"


text \<open>
  The members registered for a session when an \<open>auth\<close> message arrives, split into
  those whose socket is closing or closed and the others.
\<close>

definition registered :: "'p relay \<Rightarrow> string \<Rightarrow> websocket list" where
  "registered st sid = (case sessions st sid of None \<Rightarrow> [] | Some cs \<Rightarrow> cs)"

definition live_members :: "'p relay \<Rightarrow> string \<Rightarrow> websocket list" where
  "live_members st sid = filter (\<lambda>client. \<not> is_stale st client) (registered st sid)"

definition stale_members :: "'p relay \<Rightarrow> string \<Rightarrow> websocket list" where
  "stale_members st sid = filter (is_stale st) (registered st sid)"

text \<open>
  Scenarios: a session of 60 seconds created at time 0; socket 2 authenticates at time
  10; socket 3 authenticates at time 20; or the transport of socket 2 closes without a
  close event.
\<close>

definition one_peer :: "string relay" where
  "one_peer =
     relay_run (relay_init (fst (createSession Map.empty 0 ''s'' 60)))
       [Message 10 2 (auth_msg ''s'' None)]"

definition two_peers :: "string relay" where
  "two_peers = relay_run one_peer [Message 20 3 (auth_msg ''s'' None)]"

definition one_peer_dead :: "string relay" where
  "one_peer_dead = relay_step one_peer (Transport 2 WS_CLOSED)"

section \<open>Frames on the wire\<close>

text \<open>
  \<open>JSON.parse\<close> and \<open>JSON.stringify\<close> belong to the platform and enter as a parameter:
  the message \<open>JSON.parse\<close> makes of a frame (nothing when the listener's \<open>try\<close> block
  fails before a handler runs), and the frame \<open>JSON.stringify\<close> makes of an object
  passed to \<open>send\<close>. The relay reads the type and the \<open>sessionId\<close> of a parsed message;
  everything else of it is carried along in the payload.
\<close>

record 'p json_lib =
  JSON_parse :: "string \<Rightarrow> 'p signaling_message option"
  JSON_stringify :: "'p frame \<Rightarrow> string"

text \<open>
  The listener of \<open>message\<close> events: \<open>JSON.parse(data.toString())\<close>, then
  \<open>handleMessage\<close>; a frame that does not parse is answered with an error. A frame is
  the text \<open>data.toString()\<close> makes of what the socket received.
\<close>

definition onMessage :: "'p json_lib \<Rightarrow> 'p relay \<Rightarrow> int \<Rightarrow> websocket \<Rightarrow> string \<Rightarrow> 'p relay" where
  "onMessage J st now ws data =
     (case JSON_parse J data of
        None \<Rightarrow> sendError st ws ''Invalid message format''
      | Some message \<Rightarrow> handleMessage st now ws message)"

text \<open>
  \<open>send\<close> gives the socket \<open>JSON.stringify(message)\<close>: the frames a socket was given
  are the serialised objects recorded in \<open>sent\<close>.
\<close>

definition wire :: "'p json_lib \<Rightarrow> 'p relay \<Rightarrow> websocket \<Rightarrow> string list" where
  "wire J st ws = map (JSON_stringify J) (sent st ws)"

text \<open>
  The platform's functions on sample frames. A frame of the sample has the form
  \<open>{"type":"T","payload":N}\<close>, with a type free of quotes and backslashes and an integer
  literal of magnitude at most \<open>2^54\<close> as payload. \<open>JSON.parse\<close> reads a number as the
  double nearest to it (the integers up to \<open>2^53\<close>, and the even integers from there to
  \<open>2^54\<close>; a tie goes to the multiple of 4), and \<open>JSON.stringify\<close> writes such a double in
  plain decimal digits. Frames of another form are not part of the sample, which answers
  nothing on them.
\<close>

definition to_double :: "int \<Rightarrow> int" where
  "to_double n =
     (if \<bar>n\<bar> \<le> 2 ^ 53 then n
      else if even n then n
      else if (n + 1) mod 4 = 0 then n + 1
      else n - 1)"

definition digit_char :: "nat \<Rightarrow> char" where
  "digit_char d = ''0123456789'' ! d"

definition digit_val :: "char \<Rightarrow> nat" where
  "digit_val c = length (takeWhile (\<lambda>d. d \<noteq> c) ''0123456789'')"

definition is_digit :: "char \<Rightarrow> bool" where
  "is_digit c \<longleftrightarrow> c \<in> set ''0123456789''"

fun show_nat :: "nat \<Rightarrow> string" where
  "show_nat n =
     (if n < 10 then [digit_char n]
      else show_nat (n div 10) @ [digit_char (n mod 10)])"

definition show_int :: "int \<Rightarrow> string" where
  "show_int i = (if i < 0 then CHR ''-'' # show_nat (nat (- i)) else show_nat (nat i))"

definition read_nat :: "string \<Rightarrow> nat" where
  "read_nat ds = foldl (\<lambda>n c. 10 * n + digit_val c) 0 ds"

definition strip_prefix :: "string \<Rightarrow> string \<Rightarrow> string option" where
  "strip_prefix p s = (if take (length p) s = p then Some (drop (length p) s) else None)"

definition show_role :: "role \<Rightarrow> string" where
  "show_role r = (case r of initiator \<Rightarrow> ''initiator'' | responder \<Rightarrow> ''responder'')"

definition sample_stringify :: "int frame \<Rightarrow> string" where
  \<open>sample_stringify f =
     (case f of
        AuthOk b r n \<Rightarrow>
          ''{"type":"auth","payload":{"success":'' @ (if b then ''true'' else ''false'') @
          '',"role":"'' @ show_role r @ ''","participant_count":'' @ show_nat n @ ''}}''
      | Ready n \<Rightarrow> ''{"type":"ready","payload":{"participants":'' @ show_nat n @ ''}}''
      | PeerLeft \<Rightarrow> ''{"type":"peer-left","payload":{}}''
      | Error e \<Rightarrow> ''{"type":"error","payload":{"error":"'' @ e @ ''"}}''
      | Forward m \<Rightarrow>
          ''{"type":"'' @ m_type m @ ''","payload":'' @
          (case m_payload m of None \<Rightarrow> ''null'' | Some n \<Rightarrow> show_int n) @ ''}'')\<close>

definition sample_parse :: "string \<Rightarrow> int signaling_message option" where
  \<open>sample_parse data =
     (case strip_prefix ''{"type":"'' data of
        None \<Rightarrow> None
      | Some r1 \<Rightarrow>
          let t = takeWhile (\<lambda>c. c \<noteq> CHR 0x22) r1;
              r2 = dropWhile (\<lambda>c. c \<noteq> CHR 0x22) r1
          in if CHR 0x5C \<in> set t then None
             else
               (case strip_prefix ''","payload":'' r2 of
                  None \<Rightarrow> None
                | Some r3 \<Rightarrow>
                    let neg = (take 1 r3 = ''-'');
                        r4 = (if neg then drop 1 r3 else r3);
                        ds = takeWhile is_digit r4;
                        r5 = dropWhile is_digit r4;
                        n = (if neg then - int (read_nat ds) else int (read_nat ds))
                    in if ds = [] \<or> (length ds > 1 \<and> take 1 ds = ''0'') \<or> r5 \<noteq> ''}''
                          \<or> \<bar>n\<bar> > 2 ^ 54
                       then None
                       else Some \<lparr>m_type = t, m_sessionId = None, m_proof = None,
                                  m_payload = Some (to_double n)\<rparr>))\<close>

definition sample_json :: "int json_lib" where
  "sample_json = \<lparr>JSON_parse = sample_parse, JSON_stringify = sample_stringify\<rparr>"

text \<open>
  The scenario of two authenticated sockets again, for frames whose payload is a number.
\<close>

definition two_peers_num :: "int relay" where
  "two_peers_num =
     relay_run (relay_init (fst (createSession Map.empty 0 ''s'' 60)))
       [Message 10 2 (auth_msg ''s'' None), Message 20 3 (auth_msg ''s'' None)]"

section \<open>Unfolding for evaluation\<close>

lemmas store_eval =
  run_ops_def createSession_def getSession_def joinSession_def leaveSession_def
  updateSession_def deleteSession_def redis_get_def redis_setEx_def redis_del_def getKey_def Let_def

lemmas relay_eval = relay_run_def relay_init_def handleMessage_def handleAuth_def relayMessage_def
  handleDisconnect_def send_def sendError_def send_each_def is_stale_def set_add_def auth_msg_def

lemmas sample_eval = sample_json_def sample_parse_def sample_stringify_def strip_prefix_def
  read_nat_def digit_val_def digit_char_def is_digit_def show_int_def show_role_def to_double_def
  Let_def

section \<open>The store keeps status and count in step\<close>

lemma store_ok_empty: "store_ok Map.empty"
  by (simp add: store_ok_def)

lemma store_ok_setEx: "store_ok r \<Longrightarrow> session_ok s \<Longrightarrow> store_ok (redis_setEx r now key n s)"
  by (simp add: store_ok_def redis_setEx_def)

lemma store_ok_delete: "store_ok r \<Longrightarrow> store_ok (deleteSession r sid)"
  by (simp add: store_ok_def deleteSession_def redis_del_def)

lemma redis_get_ok: "store_ok r \<Longrightarrow> redis_get r now key = Some s \<Longrightarrow> session_ok s"
  by (auto simp: store_ok_def redis_get_def split: option.splits if_splits)

lemma getSession_store_ok: "store_ok r \<Longrightarrow> store_ok (fst (getSession r now sid))"
  by (simp add: getSession_def store_ok_delete split: option.splits)

lemma getSession_session_ok:
  "store_ok r \<Longrightarrow> getSession r now sid = (r1, Some s) \<Longrightarrow> session_ok s"
  by (auto simp: getSession_def split: option.splits if_splits dest: redis_get_ok)

lemma updateSession_store_ok:
  "store_ok r \<Longrightarrow> session_ok s \<Longrightarrow> store_ok (updateSession r now s)"
  by (simp add: updateSession_def Let_def store_ok_setEx store_ok_delete)

lemma joined_session_ok:
  assumes "session_ok s" "\<not> participant_count s \<ge> 2"
  shows "session_ok
     (let s1 = s\<lparr>participant_count := participant_count s + 1\<rparr>
      in if participant_count s1 = 1 then s1\<lparr>status := JOINED\<rparr>
         else if participant_count s1 = 2 then s1\<lparr>status := CLOSED\<rparr>
         else s1)"
  using assms by (auto simp: session_ok_def status_of_count_def Let_def)

lemma left_session_ok:
  "session_ok
     (let s1 = s\<lparr>participant_count := max 0 (participant_count s - 1)\<rparr>
      in if participant_count s1 = 0 then s1\<lparr>status := OPEN\<rparr>
         else if participant_count s1 = 1 then s1\<lparr>status := JOINED\<rparr>
         else s1\<lparr>status := CLOSED\<rparr>)" if "session_ok s"
  using that by (auto simp: session_ok_def status_of_count_def Let_def)

lemma joinSession_ok:
  assumes "store_ok r"
  shows "store_ok (fst (joinSession r now sid))"
    and "snd (joinSession r now sid) = Some s \<Longrightarrow> session_ok s"
proof -
  obtain r1 res where g: "getSession r now sid = (r1, res)" by (cases "getSession r now sid")
  have r1: "store_ok r1" using getSession_store_ok[OF assms, of now sid] g by simp
  show "store_ok (fst (joinSession r now sid))"
  proof (cases res)
    case None with g r1 show ?thesis by (simp add: joinSession_def)
  next
    case (Some s0)
    with g assms have ok: "session_ok s0" by (auto dest: getSession_session_ok)
    show ?thesis
    proof (cases "participant_count s0 \<ge> 2")
      case True with g Some r1 show ?thesis by (simp add: joinSession_def)
    next
      case False
      from joined_session_ok[OF ok False] g Some False r1 show ?thesis
        by (simp add: joinSession_def Let_def updateSession_store_ok)
    qed
  qed
  show "snd (joinSession r now sid) = Some s \<Longrightarrow> session_ok s"
  proof (cases res)
    case None 
    assume "snd (joinSession r now sid) = Some s"
    with None g show ?thesis by (simp add: joinSession_def)
  next
    case (Some s0)
    assume a: "snd (joinSession r now sid) = Some s"
    from Some g assms have ok: "session_ok s0" by (auto dest: getSession_session_ok)
    show ?thesis
    proof (cases "participant_count s0 \<ge> 2")
      case True with g Some a show ?thesis by (simp add: joinSession_def)
    next
      case False
      from joined_session_ok[OF ok False] g Some False a show ?thesis
        by (auto simp add: joinSession_def Let_def split: if_splits)
    qed
  qed
qed

lemma leaveSession_ok: "store_ok r \<Longrightarrow> store_ok (leaveSession r now sid)"
proof -
  assume a: "store_ok r"
  obtain r1 res where g: "getSession r now sid = (r1, res)" by (cases "getSession r now sid")
  have r1: "store_ok r1" using getSession_store_ok[OF a, of now sid] g by simp
  show ?thesis
  proof (cases res)
    case None with g r1 show ?thesis by (simp add: leaveSession_def)
  next
    case (Some s0)
    with g a have ok: "session_ok s0" by (auto dest: getSession_session_ok)
    from left_session_ok[OF ok] g Some r1 show ?thesis
      by (simp add: leaveSession_def Let_def updateSession_store_ok)
  qed
qed

lemma createSession_ok: "store_ok r \<Longrightarrow> store_ok (fst (createSession r now sid n))"
  by (simp add: createSession_def Let_def store_ok_setEx session_ok_def status_of_count_def)

lemma apply_op_ok: "store_ok r \<Longrightarrow> store_ok (apply_op r op)"
  by (cases op) (simp_all add: createSession_ok getSession_store_ok joinSession_ok(1) leaveSession_ok store_ok_delete)

lemma run_ops_ok: "store_ok r \<Longrightarrow> store_ok (run_ops r ops)"
  unfolding run_ops_def by (induction ops arbitrary: r) (simp_all add: apply_op_ok)

lemma session_ok_cases:
  "session_ok s \<Longrightarrow>
     (participant_count s = 0 \<and> status s = OPEN) \<or>
     (participant_count s = 1 \<and> status s = JOINED) \<or>
     (participant_count s = 2 \<and> status s = CLOSED)"
  by (auto simp: session_ok_def status_of_count_def)

text \<open>
  C10. In every store reached from the empty one by \<open>createSession\<close>, \<open>getSession\<close>,
  \<open>joinSession\<close>, \<open>leaveSession\<close> and \<open>deleteSession\<close>, every record has status
  \<open>OPEN\<close> with count 0, \<open>JOINED\<close> with count 1 or \<open>CLOSED\<close> with count 2.
\<close>

theorem status_matches_count:
  assumes "run_ops Map.empty ops k = Some e"
  shows "(participant_count (entry_value e) = 0 \<and> status (entry_value e) = OPEN) \<or>
         (participant_count (entry_value e) = 1 \<and> status (entry_value e) = JOINED) \<or>
         (participant_count (entry_value e) = 2 \<and> status (entry_value e) = CLOSED)"
proof -
  have "store_ok (run_ops Map.empty ops)"
    by (rule run_ops_ok) (rule store_ok_empty)
  with assms have "session_ok (entry_value e)"
    by (simp add: store_ok_def)
  then show ?thesis by (rule session_ok_cases)
qed

theorem status_matches_count_witness:
  "run_ops Map.empty [Create 0 ''a'' 60, Join 10 ''a'', Join 20 ''a''] (getKey ''a'') =
     Some \<lparr>entry_value = \<lparr>session_id = ''a'', expires_at = 60000, status = CLOSED,
                           participant_count = 2, created_at = 0\<rparr>,
           entry_ttl = 59, entry_set_at = 20\<rparr> \<and>
   participant_count \<lparr>session_id = ''a'', expires_at = 60000, status = CLOSED,
                           participant_count = 2, created_at = 0\<rparr> = 2 \<and>
   status \<lparr>session_id = ''a'', expires_at = 60000, status = CLOSED,
                           participant_count = 2, created_at = 0\<rparr> = CLOSED"
  using status_matches_count [of "[Create 0 ''a'' 60, Join 10 ''a'', Join 20 ''a'']" "getKey ''a''"
     "\<lparr>entry_value = \<lparr>session_id = ''a'', expires_at = 60000, status = CLOSED,
                           participant_count = 2, created_at = 0\<rparr>,
           entry_ttl = 59, entry_set_at = 20\<rparr>"]
  by (simp add: store_eval)

section \<open>Joining\<close>

lemma getSession_Some_iff:
  "getSession r now sid = (r1, Some s) \<longleftrightarrow>
     r1 = r \<and> redis_get r now (getKey sid) = Some s \<and> now \<le> expires_at s"
  by (auto simp: getSession_def split: option.splits)

lemma getSession_None_cases:
  "getSession r now sid = (r1, None) \<longleftrightarrow>
     (redis_get r now (getKey sid) = None \<and> r1 = r) \<or>
     (\<exists>s. redis_get r now (getKey sid) = Some s \<and> now > expires_at s \<and> r1 = deleteSession r sid)"
  by (auto simp: getSession_def split: option.splits)

lemma updateSession_writes:
  "updateSession r now s =
     r(getKey (session_id s) \<mapsto>
        \<lparr>entry_value = s, entry_ttl = max 1 ((expires_at s - now) div 1000), entry_set_at = now\<rparr>)"
proof -
  have "0 < max (1::int) ((expires_at s - now) div 1000)" by linarith
  then show ?thesis by (simp add: updateSession_def Let_def redis_setEx_def)
qed

lemma joinSession_accept:
  assumes "redis_get r now (getKey sid) = Some s" "now \<le> expires_at s" "participant_count s < 2"
  shows "joinSession r now sid =
     (updateSession r now
        (s\<lparr>participant_count := participant_count s + 1,
           status := (if participant_count s = 0 then JOINED
                      else if participant_count s = 1 then CLOSED else status s)\<rparr>),
      Some (s\<lparr>participant_count := participant_count s + 1,
           status := (if participant_count s = 0 then JOINED
                      else if participant_count s = 1 then CLOSED else status s)\<rparr>))"
proof -
  have g: "getSession r now sid = (r, Some s)"
    using assms by (simp add: getSession_Some_iff)
  show ?thesis using assms(3) by (simp add: joinSession_def g Let_def)
qed

lemma joinSession_reject:
  assumes "\<not> (\<exists>s. redis_get r now (getKey sid) = Some s \<and> now \<le> expires_at s \<and> participant_count s < 2)"
  shows "joinSession r now sid = (fst (getSession r now sid), None)"
proof (cases "getSession r now sid")
  case (Pair r1 res)
  show ?thesis
  proof (cases res)
    case None with Pair show ?thesis by (simp add: joinSession_def)
  next
    case (Some s)
    with Pair have "redis_get r now (getKey sid) = Some s" "now \<le> expires_at s"
      by (simp_all add: getSession_Some_iff)
    with assms have "participant_count s \<ge> 2" by auto
    with Pair Some show ?thesis by (simp add: joinSession_def)
  qed
qed

lemma joinSession_result_le_2:
  "snd (joinSession r now sid) = Some s \<Longrightarrow> participant_count s \<le> 2"
  by (cases "getSession r now sid")
     (auto simp: joinSession_def Let_def split: option.splits if_splits)

lemma key_ok_create: "key_ok sid (fst (createSession r0 t0 sid n))"
  by (simp add: key_ok_def createSession_def Let_def redis_setEx_def)

lemma key_ok_get: "key_ok sid r \<Longrightarrow> key_ok sid (fst (getSession r now sid))"
  by (simp add: key_ok_def getSession_def deleteSession_def redis_del_def split: option.splits)

lemma key_ok_join: 
  assumes "key_ok sid r" shows "key_ok sid (fst (joinSession r now sid))"
proof (cases "\<exists>s. redis_get r now (getKey sid) = Some s \<and> now \<le> expires_at s \<and> participant_count s < 2")
  case True
  then obtain s where s: "redis_get r now (getKey sid) = Some s" "now \<le> expires_at s" "participant_count s < 2"
    by blast
  from s(1) assms have "session_id s = sid"
    by (auto simp: key_ok_def redis_get_def split: option.splits if_splits)
  with s(3) show ?thesis
    by (simp add: joinSession_accept[OF s] updateSession_writes key_ok_def)
next
  case False
  then show ?thesis using key_ok_get[OF assms] by (simp add: joinSession_reject)
qed

lemma join_all_key_ok: "key_ok sid r \<Longrightarrow> key_ok sid (fst (join_all r sid ts))"
proof (induction ts arbitrary: r)
  case Nil then show ?case by simp
next
  case (Cons t ts)
  obtain r1 res where j: "joinSession r t sid = (r1, res)" by (cases "joinSession r t sid")
  obtain r2 rs where ja: "join_all r1 sid ts = (r2, rs)" by (cases "join_all r1 sid ts")
  from key_ok_join[OF Cons.prems, of t] j have "key_ok sid r1" by simp
  from Cons.IH[OF this] ja j show ?case by simp
qed

lemma join_all_results_le_2:
  "Some s \<in> set (snd (join_all r sid ts)) \<Longrightarrow> participant_count s \<le> 2"
proof (induction ts arbitrary: r)
  case Nil then show ?case by simp
next
  case (Cons t ts)
  obtain r1 res where j: "joinSession r t sid = (r1, res)" by (cases "joinSession r t sid")
  obtain r2 rs where ja: "join_all r1 sid ts = (r2, rs)" by (cases "join_all r1 sid ts")
  from Cons.prems j ja have "Some s = res \<or> Some s \<in> set rs" by auto
  then show ?case
  proof
    assume "Some s = res"
    with j joinSession_result_le_2[of r t sid s] show ?thesis by simp
  next
    assume "Some s \<in> set rs"
    with ja Cons.IH[of r1] show ?thesis by simp
  qed
qed

lemma joinSession_split:
  "joinSession r now sid =
     (case join_begin r now sid of
        (r1, None) \<Rightarrow> (r1, None)
      | (r1, Some s) \<Rightarrow> (join_finish r1 now s, Some s))"
  by (simp add: joinSession_def join_begin_def join_finish_def Let_def
        split: prod.splits option.splits)

lemma join_begin_ok:
  assumes "key_ok sid r" "join_begin r now sid = (r1, res)"
  shows "key_ok sid r1 \<and> (\<forall>s. res = Some s \<longrightarrow> session_id s = sid \<and> participant_count s \<le> 2)"
proof (cases "getSession r now sid")
  case (Pair r' g)
  have k: "key_ok sid r'" using key_ok_get[OF assms(1), of now] Pair by simp
  show ?thesis
  proof (cases g)
    case None
    with Pair assms(2) k show ?thesis by (simp add: join_begin_def)
  next
    case (Some s0)
    with Pair have "redis_get r now (getKey sid) = Some s0" by (simp add: getSession_Some_iff)
    with assms(1) have i: "session_id s0 = sid"
      by (auto simp: key_ok_def redis_get_def split: option.splits if_splits)
    show ?thesis
      using Pair Some assms(2) k i
      by (auto simp: join_begin_def Let_def split: if_splits)
  qed
qed

lemma join_finish_ok:
  assumes "key_ok sid r" "session_id s = sid" "participant_count s \<le> 2"
  shows "key_ok sid (join_finish r now s)"
  using assms by (simp add: join_finish_def updateSession_writes key_ok_def)

lemma join_interleave_ok:
  assumes "key_ok sid (fst st)" "held_ok sid (snd st)"
  shows "key_ok sid (fst (join_interleave sid st ev)) \<and> held_ok sid (snd (join_interleave sid st ev))"
proof (cases st)
  case (Pair r held)
  with assms have k: "key_ok sid r" and h: "held_ok sid held" by simp_all
  show ?thesis
  proof (cases ev)
    case (Begin c t)
    obtain r1 res where b: "join_begin r t sid = (r1, res)" by (cases "join_begin r t sid")
    from join_begin_ok[OF k b] h show ?thesis
      unfolding Pair Begin by (auto simp: b held_ok_def)
  next
    case (Finish c t)
    show ?thesis
    proof (cases "held c")
      case None
      with k h show ?thesis unfolding Pair Finish by simp
    next
      case (Some s)
      with h have "session_id s = sid" "participant_count s \<le> 2" by (auto simp: held_ok_def)
      from join_finish_ok[OF k this] h Some show ?thesis
        unfolding Pair Finish by (auto simp: held_ok_def)
    qed
  qed
qed

lemma join_interleave_run_ok:
  "key_ok sid (fst st) \<Longrightarrow> held_ok sid (snd st) \<Longrightarrow>
     key_ok sid (fst (foldl (join_interleave sid) st evs)) \<and>
     held_ok sid (snd (foldl (join_interleave sid) st evs))"
  by (induction evs arbitrary: st) (simp_all add: join_interleave_ok)

text \<open>
  However the two halves of concurrent \<open>joinSession\<close> calls on a fresh session are
  interleaved, the stored record and every record a caller is about to return have a
  count of at most 2.
\<close>

lemma interleaved_joins_never_exceed_two:
  assumes "foldl (join_interleave sid) (fst (createSession r0 t0 sid n), Map.empty) evs = (r, held)"
  shows "(\<forall>e. r (getKey sid) = Some e \<longrightarrow> participant_count (entry_value e) \<le> 2) \<and>
         (\<forall>c s. held c = Some s \<longrightarrow> participant_count s \<le> 2)"
proof -
  have "key_ok sid (fst (fst (createSession r0 t0 sid n), Map.empty :: nat \<rightharpoonup> session))"
    by (simp add: key_ok_create)
  moreover have "held_ok sid (snd (fst (createSession r0 t0 sid n), Map.empty :: nat \<rightharpoonup> session))"
    by (simp add: held_ok_def)
  ultimately have "key_ok sid (fst (foldl (join_interleave sid) (fst (createSession r0 t0 sid n), Map.empty) evs)) \<and>
     held_ok sid (snd (foldl (join_interleave sid) (fst (createSession r0 t0 sid n), Map.empty) evs))"
    by (rule join_interleave_run_ok)
  with assms show ?thesis by (simp add: key_ok_def held_ok_def)
qed

text \<open>
  C1. After \<open>createSession\<close>, whatever the sequence of \<open>joinSession\<close> calls on the
  identifier, every session a call returns and the record left in the store have a count
  of at most 2. A single \<open>joinSession\<close> returns a session exactly when the key holds a
  record that has not expired and whose count is below 2; it then returns and stores the
  record with the count raised by one, and otherwise returns nothing and writes nothing.
\<close>

theorem join_count_never_exceeds_two:
  "(\<forall>s. Some s \<in> set (snd (join_all (fst (createSession r0 t0 sid n)) sid ts))
        \<longrightarrow> participant_count s \<le> 2) \<and>
   (\<forall>e. fst (join_all (fst (createSession r0 t0 sid n)) sid ts) (getKey sid) = Some e
        \<longrightarrow> participant_count (entry_value e) \<le> 2) \<and>
   ((\<exists>s'. snd (joinSession r now k) = Some s') \<longleftrightarrow>
      (\<exists>s. redis_get r now (getKey k) = Some s \<and> now \<le> expires_at s \<and> participant_count s < 2)) \<and>
   (\<forall>s. redis_get r now (getKey k) = Some s \<and> now \<le> expires_at s \<and> participant_count s < 2 \<longrightarrow>
      (\<exists>s'. snd (joinSession r now k) = Some s' \<and>
            participant_count s' = participant_count s + 1 \<and>
            fst (joinSession r now k) (getKey (session_id s)) =
              Some \<lparr>entry_value = s',
                    entry_ttl = max 1 ((expires_at s - now) div 1000),
                    entry_set_at = now\<rparr>)) \<and>
   (\<not> (\<exists>s. redis_get r now (getKey k) = Some s \<and> now \<le> expires_at s \<and> participant_count s < 2) \<longrightarrow>
      joinSession r now k = (fst (getSession r now k), None))"
proof (intro conjI allI impI)
  fix s assume "Some s \<in> set (snd (join_all (fst (createSession r0 t0 sid n)) sid ts))"
  then show "participant_count s \<le> 2" by (rule join_all_results_le_2)
next
  fix e assume "fst (join_all (fst (createSession r0 t0 sid n)) sid ts) (getKey sid) = Some e"
  with join_all_key_ok[OF key_ok_create, of sid r0 t0 n ts]
  show "participant_count (entry_value e) \<le> 2" by (simp add: key_ok_def)
next
  show "(\<exists>s'. snd (joinSession r now k) = Some s') \<longleftrightarrow>
      (\<exists>s. redis_get r now (getKey k) = Some s \<and> now \<le> expires_at s \<and> participant_count s < 2)"
  proof
    assume "\<exists>s'. snd (joinSession r now k) = Some s'"
    then show "\<exists>s. redis_get r now (getKey k) = Some s \<and> now \<le> expires_at s \<and> participant_count s < 2"
      using joinSession_reject[of r now k] by (cases "\<exists>s. redis_get r now (getKey k) = Some s \<and> now \<le> expires_at s \<and> participant_count s < 2") auto
  next
    assume "\<exists>s. redis_get r now (getKey k) = Some s \<and> now \<le> expires_at s \<and> participant_count s < 2"
    then obtain s where "redis_get r now (getKey k) = Some s" "now \<le> expires_at s" "participant_count s < 2" by blast
    from joinSession_accept[OF this] show "\<exists>s'. snd (joinSession r now k) = Some s'" by simp
  qed
next
  fix s assume "redis_get r now (getKey k) = Some s \<and> now \<le> expires_at s \<and> participant_count s < 2"
  then have a: "redis_get r now (getKey k) = Some s" "now \<le> expires_at s" "participant_count s < 2" by auto
  show "\<exists>s'. snd (joinSession r now k) = Some s' \<and>
            participant_count s' = participant_count s + 1 \<and>
            fst (joinSession r now k) (getKey (session_id s)) =
              Some \<lparr>entry_value = s',
                    entry_ttl = max 1 ((expires_at s - now) div 1000),
                    entry_set_at = now\<rparr>"
    by (simp add: joinSession_accept[OF a] updateSession_writes)
next
  assume "\<not> (\<exists>s. redis_get r now (getKey k) = Some s \<and> now \<le> expires_at s \<and> participant_count s < 2)"
  then show "joinSession r now k = (fst (getSession r now k), None)" by (rule joinSession_reject)
qed

theorem join_count_never_exceeds_two_witness:
  "Some \<lparr>session_id = ''a'', expires_at = 60000, status = CLOSED, participant_count = 2, created_at = 0\<rparr>
     \<in> set (snd (join_all (fst (createSession Map.empty 0 ''a'' 60)) ''a'' [10, 20, 30])) \<and>
   participant_count \<lparr>session_id = ''a'', expires_at = 60000, status = CLOSED, participant_count = 2, created_at = 0\<rparr> \<le> 2 \<and>
   map (map_option participant_count) (snd (join_all (fst (createSession Map.empty 0 ''a'' 60)) ''a'' [10, 20, 30]))
     = [Some 1, Some 2, None] \<and>
   redis_get (fst (createSession Map.empty 0 ''a'' 60)) 10 (getKey ''a'') =
     Some \<lparr>session_id = ''a'', expires_at = 60000, status = OPEN, participant_count = 0, created_at = 0\<rparr> \<and>
   snd (joinSession (fst (createSession Map.empty 0 ''a'' 60)) 10 ''a'') =
     Some \<lparr>session_id = ''a'', expires_at = 60000, status = JOINED, participant_count = 1, created_at = 0\<rparr>"
  using join_count_never_exceeds_two [of Map.empty 0 "''a''" 60 "[10, 20, 30]"
     "fst (createSession Map.empty 0 ''a'' 60)" 10 "''a''"]
  by (simp add: store_eval)

section \<open>Reading and expiry\<close>

lemma deleteSession_key: "deleteSession r sid (getKey sid) = None"
  by (simp add: deleteSession_def redis_del_def)

lemma redis_get_deleted: "redis_get (deleteSession r sid) t (getKey sid) = None"
  by (simp add: redis_get_def deleteSession_key)

lemma joinSession_deleted:
  "joinSession (deleteSession r sid) t sid = (deleteSession r sid, None)"
  by (simp add: joinSession_def getSession_def redis_get_deleted)

text \<open>
  C7. \<open>getSession\<close> returns the record when the key holds one whose expiry has not
  passed, and leaves the store as it is. When the key holds a record whose expiry has
  passed, it deletes the key and returns nothing, and a \<open>joinSession\<close> on the identifier
  that follows, at whatever time, finds no record and returns nothing. When Redis no
  longer answers for the key, \<open>getSession\<close> and \<open>joinSession\<close> return nothing as well.
\<close>

theorem get_returns_live_deletes_expired:
  "(redis_get r now (getKey sid) = Some s \<and> now \<le> expires_at s \<longrightarrow>
      getSession r now sid = (r, Some s)) \<and>
   (redis_get r now (getKey sid) = Some s \<and> now > expires_at s \<longrightarrow>
      getSession r now sid = (deleteSession r sid, None) \<and>
      fst (getSession r now sid) (getKey sid) = None \<and>
      snd (getSession (fst (getSession r now sid)) t sid) = None \<and>
      joinSession (fst (getSession r now sid)) t sid = (fst (getSession r now sid), None)) \<and>
   (redis_get r now (getKey sid) = None \<longrightarrow>
      getSession r now sid = (r, None) \<and> joinSession r now sid = (r, None))"
  by (simp add: getSession_def joinSession_def deleteSession_key redis_get_deleted
        joinSession_deleted)

theorem get_returns_live_deletes_expired_witness:
  "redis_get (run_ops Map.empty [Create 0 ''a'' 1, Join 500 ''a'']) 900 (getKey ''a'') =
     Some \<lparr>session_id = ''a'', expires_at = 1000, status = JOINED, participant_count = 1, created_at = 0\<rparr> \<and>
   (900::int) \<le> expires_at \<lparr>session_id = ''a'', expires_at = 1000, status = JOINED, participant_count = 1, created_at = 0\<rparr> \<and>
   snd (getSession (run_ops Map.empty [Create 0 ''a'' 1, Join 500 ''a'']) 900 ''a'') =
     Some \<lparr>session_id = ''a'', expires_at = 1000, status = JOINED, participant_count = 1, created_at = 0\<rparr> \<and>
   redis_get (run_ops Map.empty [Create 0 ''a'' 1, Join 500 ''a'']) 1200 (getKey ''a'') =
     Some \<lparr>session_id = ''a'', expires_at = 1000, status = JOINED, participant_count = 1, created_at = 0\<rparr> \<and>
   (1200::int) > expires_at \<lparr>session_id = ''a'', expires_at = 1000, status = JOINED, participant_count = 1, created_at = 0\<rparr> \<and>
   snd (getSession (run_ops Map.empty [Create 0 ''a'' 1, Join 500 ''a'']) 1200 ''a'') = None \<and>
   fst (getSession (run_ops Map.empty [Create 0 ''a'' 1, Join 500 ''a'']) 1200 ''a'') (getKey ''a'') = None \<and>
   snd (joinSession (fst (getSession (run_ops Map.empty [Create 0 ''a'' 1, Join 500 ''a'']) 1200 ''a'')) 1300 ''a'') = None \<and>
   redis_get (fst (createSession Map.empty 0 ''a'' 5)) 6000 (getKey ''a'') = None \<and>
   snd (getSession (fst (createSession Map.empty 0 ''a'' 5)) 6000 ''a'') = None \<and>
   snd (joinSession (fst (createSession Map.empty 0 ''a'' 5)) 6000 ''a'') = None"
  using get_returns_live_deletes_expired
    [of "fst (createSession Map.empty 0 ''a'' 5)" 6000 "''a''"]
      get_returns_live_deletes_expired
    [of "run_ops Map.empty [Create 0 ''a'' 1, Join 500 ''a'']" 900 "''a''"
        "\<lparr>session_id = ''a'', expires_at = 1000, status = JOINED, participant_count = 1, created_at = 0\<rparr>"]
      get_returns_live_deletes_expired
    [of "run_ops Map.empty [Create 0 ''a'' 1, Join 500 ''a'']" 1200 "''a''"
        "\<lparr>session_id = ''a'', expires_at = 1000, status = JOINED, participant_count = 1, created_at = 0\<rparr>" 1300]
  by (simp add: store_eval)

section \<open>Leaving\<close>

lemma leaveSession_live:
  assumes "redis_get r now (getKey sid) = Some s" "now \<le> expires_at s"
  shows "leaveSession r now sid =
     updateSession r now
       (s\<lparr>participant_count := max 0 (participant_count s - 1),
          status := status_of_count (max 0 (participant_count s - 1))\<rparr>)"
proof -
  have g: "getSession r now sid = (r, Some s)"
    using assms by (simp add: getSession_Some_iff)
  show ?thesis
    by (simp add: leaveSession_def g Let_def status_of_count_def)
qed

lemma leaveSession_expired:
  assumes "redis_get r now (getKey sid) = Some s" "now > expires_at s"
  shows "leaveSession r now sid = deleteSession r sid"
  using assms by (simp add: leaveSession_def getSession_def)

lemma leaveSession_absent:
  assumes "redis_get r now (getKey sid) = None"
  shows "leaveSession r now sid = r"
  using assms by (simp add: leaveSession_def getSession_def)

lemma key_zero_leave:
  assumes "key_zero sid r" shows "key_zero sid (leaveSession r now sid)"
proof (cases "redis_get r now (getKey sid)")
  case None
  with assms show ?thesis by (simp add: leaveSession_absent)
next
  case (Some s)
  with assms have s: "session_id s = sid" "participant_count s = 0"
    by (auto simp: key_zero_def redis_get_def split: option.splits if_splits)
  show ?thesis
  proof (cases "now \<le> expires_at s")
    case True
    show ?thesis using s
      by (simp add: leaveSession_live[OF Some True] updateSession_writes key_zero_def)
  next
    case False
    then have "now > expires_at s" by simp
    from leaveSession_expired[OF Some this] show ?thesis
      by (simp add: key_zero_def deleteSession_key)
  qed
qed

lemma key_zero_leave_all: "key_zero sid r \<Longrightarrow> key_zero sid (leave_all r sid ts)"
  unfolding leave_all_def by (induction ts arbitrary: r) (simp_all add: key_zero_leave)

text \<open>
  C8, amended. When the key of the identifier holds a record that carries this
  identifier and has not expired, \<open>leaveSession\<close> stores it again with the count lowered
  by one but not below 0 and the status recomputed from the new count; the key is still
  there afterwards, and the new count is never negative. Repeated \<open>leaveSession\<close> calls on
  a record of count 0 leave the count at 0. When the record's expiry has passed,
  \<open>leaveSession\<close> deletes it; when there is none, the store stays as it is.
\<close>

theorem leave_decrements_floor_zero:
  "(redis_get r now (getKey sid) = Some s \<and> now \<le> expires_at s \<and> session_id s = sid \<longrightarrow>
      leaveSession r now sid (getKey sid) =
        Some \<lparr>entry_value =
                s\<lparr>participant_count := max 0 (participant_count s - 1),
                  status := status_of_count (max 0 (participant_count s - 1))\<rparr>,
              entry_ttl = max 1 ((expires_at s - now) div 1000),
              entry_set_at = now\<rparr> \<and>
      (\<forall>k. k \<noteq> getKey sid \<longrightarrow> leaveSession r now sid k = r k) \<and>
      0 \<le> max 0 (participant_count s - 1) \<and>
      (participant_count s = 0 \<longrightarrow> max 0 (participant_count s - 1) = 0)) \<and>
   (r0 (getKey sid) = Some e0 \<and> session_id (entry_value e0) = sid \<and>
    participant_count (entry_value e0) = 0 \<longrightarrow>
      (\<forall>e. leave_all r0 sid ts (getKey sid) = Some e \<longrightarrow> participant_count (entry_value e) = 0)) \<and>
   (redis_get r now (getKey sid) = Some s \<and> now > expires_at s \<longrightarrow>
      leaveSession r now sid = deleteSession r sid) \<and>
   (redis_get r now (getKey sid) = None \<longrightarrow> leaveSession r now sid = r)"
proof (intro conjI impI)
  assume a: "redis_get r now (getKey sid) = Some s \<and> now \<le> expires_at s \<and> session_id s = sid"
  then have l: "leaveSession r now sid =
     updateSession r now
       (s\<lparr>participant_count := max 0 (participant_count s - 1),
          status := status_of_count (max 0 (participant_count s - 1))\<rparr>)"
    by (simp add: leaveSession_live)
  from a show "leaveSession r now sid (getKey sid) =
        Some \<lparr>entry_value =
                s\<lparr>participant_count := max 0 (participant_count s - 1),
                  status := status_of_count (max 0 (participant_count s - 1))\<rparr>,
              entry_ttl = max 1 ((expires_at s - now) div 1000),
              entry_set_at = now\<rparr>"
    by (simp add: l updateSession_writes)
  from a show "\<forall>k. k \<noteq> getKey sid \<longrightarrow> leaveSession r now sid k = r k"
    by (simp add: l updateSession_writes)
  show "0 \<le> max 0 (participant_count s - 1)" by simp
  assume "participant_count s = 0"
  then show "max 0 (participant_count s - 1) = 0" by simp
next
  assume a: "r0 (getKey sid) = Some e0 \<and> session_id (entry_value e0) = sid \<and>
    participant_count (entry_value e0) = 0"
  then have "key_zero sid r0" by (simp add: key_zero_def)
  then have "key_zero sid (leave_all r0 sid ts)" by (rule key_zero_leave_all)
  then show "\<forall>e. leave_all r0 sid ts (getKey sid) = Some e \<longrightarrow> participant_count (entry_value e) = 0"
    by (simp add: key_zero_def)
next
  assume "redis_get r now (getKey sid) = Some s \<and> now > expires_at s"
  then show "leaveSession r now sid = deleteSession r sid" by (simp add: leaveSession_expired)
next
  assume "redis_get r now (getKey sid) = None"
  then show "leaveSession r now sid = r" by (rule leaveSession_absent)
qed

theorem leave_decrements_floor_zero_witness:
  "redis_get (run_ops Map.empty [Create 0 ''a'' 60, Join 5 ''a'', Join 6 ''a'']) 10 (getKey ''a'') =
     Some \<lparr>session_id = ''a'', expires_at = 60000, status = CLOSED, participant_count = 2, created_at = 0\<rparr> \<and>
   leaveSession (run_ops Map.empty [Create 0 ''a'' 60, Join 5 ''a'', Join 6 ''a'']) 10 ''a'' (getKey ''a'') =
     Some \<lparr>entry_value = \<lparr>session_id = ''a'', expires_at = 60000, status = JOINED,
                           participant_count = 1, created_at = 0\<rparr>,
           entry_ttl = 59, entry_set_at = 10\<rparr> \<and>
   fst (createSession Map.empty 0 ''a'' 60) (getKey ''a'') =
     Some \<lparr>entry_value = \<lparr>session_id = ''a'', expires_at = 60000, status = OPEN,
                           participant_count = 0, created_at = 0\<rparr>,
           entry_ttl = 60, entry_set_at = 0\<rparr> \<and>
   leave_all (fst (createSession Map.empty 0 ''a'' 60)) ''a'' [10, 20, 30] (getKey ''a'') =
     Some \<lparr>entry_value = \<lparr>session_id = ''a'', expires_at = 60000, status = OPEN,
                           participant_count = 0, created_at = 0\<rparr>,
           entry_ttl = 59, entry_set_at = 30\<rparr>"
proof -
  let ?r = "run_ops Map.empty [Create 0 ''a'' 60, Join 5 ''a'', Join 6 ''a'']"
  let ?s = "\<lparr>session_id = ''a'', expires_at = 60000, status = CLOSED, participant_count = 2, created_at = 0\<rparr>"
  let ?fresh = "fst (createSession Map.empty 0 ''a'' 60)"
  let ?entry = "\<lparr>entry_value = \<lparr>session_id = ''a'', expires_at = 60000, status = OPEN,
                           participant_count = 0, created_at = 0\<rparr>,
           entry_ttl = 60, entry_set_at = 0\<rparr>"
  have g: "redis_get ?r 10 (getKey ''a'') = Some ?s"
    by (simp add: store_eval)
  have c: "?fresh (getKey ''a'') = Some ?entry"
    by (simp add: createSession_def redis_setEx_def Let_def)
  have la: "leave_all ?fresh ''a'' [10, 20, 30] (getKey ''a'') =
     Some \<lparr>entry_value = \<lparr>session_id = ''a'', expires_at = 60000, status = OPEN,
                           participant_count = 0, created_at = 0\<rparr>,
           entry_ttl = 59, entry_set_at = 30\<rparr>"
    by (simp add: store_eval leave_all_def)
  have l: "leaveSession ?r 10 ''a'' (getKey ''a'') =
        Some \<lparr>entry_value =
                ?s\<lparr>participant_count := max 0 (participant_count ?s - 1),
                  status := status_of_count (max 0 (participant_count ?s - 1))\<rparr>,
              entry_ttl = max 1 ((expires_at ?s - 10) div 1000),
              entry_set_at = 10\<rparr>"
    using leave_decrements_floor_zero [of ?r 10 "''a''" ?s ?fresh ?entry "[10, 20, 30]"] g
    by simp
  have l': "leaveSession ?r 10 ''a'' (getKey ''a'') =
     Some \<lparr>entry_value = \<lparr>session_id = ''a'', expires_at = 60000, status = JOINED,
                           participant_count = 1, created_at = 0\<rparr>,
           entry_ttl = 59, entry_set_at = 10\<rparr>"
    unfolding l by (simp add: status_of_count_def)
  from g l' c la show ?thesis by blast
qed

text \<open>
  Counterexample to C8 as stated (\<open>leaveSession\<close> never deletes the record): a session
  created at time 0 for one second and joined at time 500 is stored again for one more
  second, so at time 1200 the key is still there although the session's expiry, 1000, has
  passed; \<open>leaveSession\<close> then reads it through \<open>getSession\<close>, which deletes it.
\<close>

theorem leave_deletes_expired_record:
  "run_ops Map.empty [Create 0 ''a'' 1, Join 500 ''a''] (getKey ''a'') =
     Some \<lparr>entry_value = \<lparr>session_id = ''a'', expires_at = 1000, status = JOINED,
                           participant_count = 1, created_at = 0\<rparr>,
           entry_ttl = 1, entry_set_at = 500\<rparr> \<and>
   leaveSession (run_ops Map.empty [Create 0 ''a'' 1, Join 500 ''a'']) 1200 ''a'' (getKey ''a'') = None"
  by (simp add: store_eval)

section \<open>Creating\<close>

text \<open>
  C9, amended. For a requested expiry that is a positive number of seconds,
  \<open>POST /sessions\<close> writes under the new identifier a record with status \<open>OPEN\<close> and
  count 0 whose TTL is the smaller of the requested value and \<open>MAX_EXPIRY\<close>, and answers
  201 with that value. When the request names no expiry, or names 0, the record is the
  same with \<open>DEFAULT_EXPIRY\<close> as its TTL.
\<close>

theorem create_writes_open_record:
  "(0 < v \<longrightarrow>
      post_sessions r now uuid (Some v) =
        (r(getKey uuid \<mapsto>
            \<lparr>entry_value = \<lparr>session_id = uuid, expires_at = now + min v MAX_EXPIRY * 1000,
                             status = OPEN, participant_count = 0, created_at = now\<rparr>,
             entry_ttl = min v MAX_EXPIRY, entry_set_at = now\<rparr>),
         \<lparr>resp_status = 201, resp_session_id = uuid,
          resp_expires_at = now + min v MAX_EXPIRY * 1000,
          resp_expires_in_seconds = min v MAX_EXPIRY\<rparr>)) \<and>
   (req = None \<or> req = Some 0 \<longrightarrow>
      post_sessions r now uuid req =
        (r(getKey uuid \<mapsto>
            \<lparr>entry_value = \<lparr>session_id = uuid, expires_at = now + DEFAULT_EXPIRY * 1000,
                             status = OPEN, participant_count = 0, created_at = now\<rparr>,
             entry_ttl = DEFAULT_EXPIRY, entry_set_at = now\<rparr>),
         \<lparr>resp_status = 201, resp_session_id = uuid,
          resp_expires_at = now + DEFAULT_EXPIRY * 1000,
          resp_expires_in_seconds = DEFAULT_EXPIRY\<rparr>))"
  by (auto simp: post_sessions_def or_default_def createSession_def redis_setEx_def Let_def
        DEFAULT_EXPIRY_def MAX_EXPIRY_def)

theorem create_writes_open_record_witness:
  "(0::int) < 7200 \<and>
   post_sessions Map.empty 5 ''u'' (Some 7200) =
     ([getKey ''u'' \<mapsto>
         \<lparr>entry_value = \<lparr>session_id = ''u'', expires_at = 3600005,
                          status = OPEN, participant_count = 0, created_at = 5\<rparr>,
          entry_ttl = 3600, entry_set_at = 5\<rparr>],
      \<lparr>resp_status = 201, resp_session_id = ''u'', resp_expires_at = 3600005,
       resp_expires_in_seconds = 3600\<rparr>) \<and>
   post_sessions Map.empty 5 ''u'' (Some 30) =
     ([getKey ''u'' \<mapsto>
         \<lparr>entry_value = \<lparr>session_id = ''u'', expires_at = 30005,
                          status = OPEN, participant_count = 0, created_at = 5\<rparr>,
          entry_ttl = 30, entry_set_at = 5\<rparr>],
      \<lparr>resp_status = 201, resp_session_id = ''u'', resp_expires_at = 30005,
       resp_expires_in_seconds = 30\<rparr>) \<and>
   post_sessions Map.empty 5 ''u'' None =
     ([getKey ''u'' \<mapsto>
         \<lparr>entry_value = \<lparr>session_id = ''u'', expires_at = 900005,
                          status = OPEN, participant_count = 0, created_at = 5\<rparr>,
          entry_ttl = 900, entry_set_at = 5\<rparr>],
      \<lparr>resp_status = 201, resp_session_id = ''u'', resp_expires_at = 900005,
       resp_expires_in_seconds = 900\<rparr>)"
  using create_writes_open_record [of 7200 Map.empty 5 "''u''" None]
        create_writes_open_record [of 30 Map.empty 5 "''u''" None]
  by (simp add: MAX_EXPIRY_def DEFAULT_EXPIRY_def)

text \<open>
  Counterexample to C9 as stated (the TTL is the smaller of the requested value and
  \<open>MAX_EXPIRY\<close> for every requested value): a request for 0 seconds yields a record
  with a TTL of 900 seconds.
\<close>

theorem create_zero_expiry_gets_default:
  "map_option entry_ttl (fst (post_sessions Map.empty 0 ''u'' (Some 0)) (getKey ''u'')) = Some 900 \<and>
   Some (900::int) \<noteq> Some (min 0 MAX_EXPIRY)"
  by (simp add: post_sessions_def or_default_def DEFAULT_EXPIRY_def MAX_EXPIRY_def store_eval)

section \<open>Sending\<close>

lemma send_fields [simp]:
  "clients (send st c f) = clients st"
  "sessions (send st c f) = sessions st"
  "store (send st c f) = store st"
  "readyState (send st c f) = readyState st"
  by (simp_all add: send_def)

lemma sent_send:
  "sent (send st c f) c' =
     (if c' = c \<and> readyState st c = WS_OPEN then sent st c @ [f] else sent st c')"
  by (simp add: send_def)

lemma sendError_fields [simp]:
  "clients (sendError st c e) = clients st"
  "sessions (sendError st c e) = sessions st"
  "store (sendError st c e) = store st"
  "readyState (sendError st c e) = readyState st"
  by (simp_all add: sendError_def)

lemma sent_sendError:
  "sent (sendError st c e) c' =
     (if c' = c \<and> readyState st c = WS_OPEN then sent st c @ [Error e] else sent st c')"
  by (simp add: sendError_def sent_send)

lemma send_each_fields [simp]:
  "clients (send_each st cs f) = clients st"
  "sessions (send_each st cs f) = sessions st"
  "store (send_each st cs f) = store st"
  "readyState (send_each st cs f) = readyState st"
  unfolding send_each_def by (induction cs arbitrary: st; simp)+

lemma sent_send_each:
  "sent (send_each st cs f) c =
     (if readyState st c = WS_OPEN then sent st c @ replicate (count_list cs c) f else sent st c)"
  unfolding send_each_def
proof (induction cs arbitrary: st)
  case Nil
  then show ?case by simp
next
  case (Cons a cs)
  show ?case
    by (simp add: Cons.IH sent_send replicate_append_same)
qed

text \<open>The loop of \<open>relayMessage\<close>.\<close>

lemma relay_loop_fields:
  "clients (foldl (\<lambda>s client. if client \<noteq> ws \<and> readyState s client = WS_OPEN
                                then send s client f else s) st cs) = clients st"
  "sessions (foldl (\<lambda>s client. if client \<noteq> ws \<and> readyState s client = WS_OPEN
                                then send s client f else s) st cs) = sessions st"
  "store (foldl (\<lambda>s client. if client \<noteq> ws \<and> readyState s client = WS_OPEN
                                then send s client f else s) st cs) = store st"
  "readyState (foldl (\<lambda>s client. if client \<noteq> ws \<and> readyState s client = WS_OPEN
                                then send s client f else s) st cs) = readyState st"
  by (induction cs arbitrary: st; simp)+

lemma relay_loop_sent:
  "sent (foldl (\<lambda>s client. if client \<noteq> ws \<and> readyState s client = WS_OPEN
                                then send s client f else s) st cs) c =
     (if c \<noteq> ws \<and> readyState st c = WS_OPEN
      then sent st c @ replicate (count_list cs c) f else sent st c)"
proof (induction cs arbitrary: st)
  case Nil
  then show ?case by simp
next
  case (Cons a cs)
  show ?case
    by (simp add: Cons.IH sent_send replicate_append_same)
qed

lemma count_list_distinct:
  "distinct cs \<Longrightarrow> count_list cs c = (if c \<in> set cs then 1 else 0)"
  by (induction cs) auto

section \<open>Scenarios\<close>

lemma one_peer_state:
  "one_peer =
     \<lparr>clients = [2 \<mapsto> \<lparr>sessionId = ''s'', role = initiator, info_ws = 2, authenticated = True\<rparr>],
      sessions = [''s'' \<mapsto> [2]],
      store = [getKey ''s'' \<mapsto>
                 \<lparr>entry_value = \<lparr>session_id = ''s'', expires_at = 60000, status = JOINED,
                                  participant_count = 1, created_at = 0\<rparr>,
                  entry_ttl = 59, entry_set_at = 10\<rparr>],
      readyState = (\<lambda>ws. WS_OPEN),
      sent = (\<lambda>ws. [])(2 := [AuthOk True initiator 1])\<rparr>"
  by (simp add: one_peer_def relay_eval store_eval)

lemma two_peers_state:
  "two_peers =
     \<lparr>clients = [2 \<mapsto> \<lparr>sessionId = ''s'', role = initiator, info_ws = 2, authenticated = True\<rparr>,
                 3 \<mapsto> \<lparr>sessionId = ''s'', role = responder, info_ws = 3, authenticated = True\<rparr>],
      sessions = [''s'' \<mapsto> [2, 3]],
      store = [getKey ''s'' \<mapsto>
                 \<lparr>entry_value = \<lparr>session_id = ''s'', expires_at = 60000, status = CLOSED,
                                  participant_count = 2, created_at = 0\<rparr>,
                  entry_ttl = 59, entry_set_at = 20\<rparr>],
      readyState = (\<lambda>ws. WS_OPEN),
      sent = (\<lambda>ws. [])(2 := [AuthOk True initiator 1, Ready 2],
                          3 := [AuthOk True responder 2, Ready 2])\<rparr>"
  by (simp add: two_peers_def one_peer_state relay_eval store_eval fun_eq_iff)

lemma one_peer_dead_state:
  "one_peer_dead =
     \<lparr>clients = [2 \<mapsto> \<lparr>sessionId = ''s'', role = initiator, info_ws = 2, authenticated = True\<rparr>],
      sessions = [''s'' \<mapsto> [2]],
      store = [getKey ''s'' \<mapsto>
                 \<lparr>entry_value = \<lparr>session_id = ''s'', expires_at = 60000, status = JOINED,
                                  participant_count = 1, created_at = 0\<rparr>,
                  entry_ttl = 59, entry_set_at = 10\<rparr>],
      readyState = (\<lambda>ws. WS_OPEN)(2 := WS_CLOSED),
      sent = (\<lambda>ws. [])(2 := [AuthOk True initiator 1])\<rparr>"
  by (simp add: one_peer_dead_def one_peer_state)


lemma two_peers_fields:
  "clients two_peers 2 =
     Some \<lparr>sessionId = ''s'', role = initiator, info_ws = 2, authenticated = True\<rparr>"
  "clients two_peers 3 =
     Some \<lparr>sessionId = ''s'', role = responder, info_ws = 3, authenticated = True\<rparr>"
  "sessions two_peers ''s'' = Some [2, 3]"
  "readyState two_peers = (\<lambda>ws. WS_OPEN)"
  "sent two_peers 2 = [AuthOk True initiator 1, Ready 2]"
  "sent two_peers 3 = [AuthOk True responder 2, Ready 2]"
  "sent two_peers 4 = []"
  "store two_peers (getKey ''s'') =
     Some \<lparr>entry_value = \<lparr>session_id = ''s'', expires_at = 60000, status = CLOSED,
                           participant_count = 2, created_at = 0\<rparr>,
           entry_ttl = 59, entry_set_at = 20\<rparr>"
  by (simp_all add: two_peers_state)

lemma one_peer_dead_fields:
  "clients one_peer_dead 2 =
     Some \<lparr>sessionId = ''s'', role = initiator, info_ws = 2, authenticated = True\<rparr>"
  "sessions one_peer_dead ''s'' = Some [2]"
  "readyState one_peer_dead 2 = WS_CLOSED"
  "readyState one_peer_dead 4 = WS_OPEN"
  "sent one_peer_dead 4 = []"
  "store one_peer_dead =
     [getKey ''s'' \<mapsto> \<lparr>entry_value = \<lparr>session_id = ''s'', expires_at = 60000, status = JOINED,
                           participant_count = 1, created_at = 0\<rparr>,
           entry_ttl = 59, entry_set_at = 10\<rparr>]"
  by (simp_all add: one_peer_dead_state)

section \<open>What authentication reads\<close>

text \<open>
  C3. What \<open>handleAuth\<close> does is fixed by the \<open>sessionId\<close> of the message (and the state
  of the relay): the proof, the payload and the rest of the message are never read. Two
  \<open>auth\<close> messages with the same \<open>sessionId\<close> leave the relay in the same state and draw
  the same frames, whatever their proofs are.
\<close>

theorem auth_reads_only_session_id:
  "handleAuth st now ws (message\<lparr>m_proof := p\<rparr>) = handleAuth st now ws message \<and>
   (m_sessionId m1 = m_sessionId m2 \<longrightarrow>
      handleAuth st now ws m1 = handleAuth st now ws m2 \<and>
      (m_type m1 = ''auth'' \<and> m_type m2 = ''auth'' \<longrightarrow>
         handleMessage st now ws m1 = handleMessage st now ws m2))"
  by (simp add: handleAuth_def handleMessage_def)

theorem auth_reads_only_session_id_witness:
  "m_sessionId (auth_msg ''s'' (Some ''right'') :: unit signaling_message) =
     m_sessionId (auth_msg ''s'' (Some ''wrong'') :: unit signaling_message) \<and>
   handleMessage (relay_init (fst (createSession Map.empty 0 ''s'' 60))) 1 1
       (auth_msg ''s'' (Some ''right'') :: unit signaling_message) =
     handleMessage (relay_init (fst (createSession Map.empty 0 ''s'' 60))) 1 1
       (auth_msg ''s'' (Some ''wrong'')) \<and>
   sent (handleMessage (relay_init (fst (createSession Map.empty 0 ''s'' 60))) 1 1
       (auth_msg ''s'' (Some ''wrong'') :: unit signaling_message)) 1 =
     [AuthOk True initiator 1]"
proof -
  have "sent (handleMessage (relay_init (fst (createSession Map.empty 0 ''s'' 60))) 1 1
       (auth_msg ''s'' (Some ''wrong'') :: unit signaling_message)) 1 =
     [AuthOk True initiator 1]"
    by (simp add: relay_eval store_eval)
  moreover have "m_type (auth_msg ''s'' (Some ''right'') :: unit signaling_message) = ''auth''"
    "m_type (auth_msg ''s'' (Some ''wrong'') :: unit signaling_message) = ''auth''"
    "m_sessionId (auth_msg ''s'' (Some ''right'') :: unit signaling_message) =
     m_sessionId (auth_msg ''s'' (Some ''wrong'') :: unit signaling_message)"
    by (simp_all add: auth_msg_def)
  ultimately show ?thesis
    using auth_reads_only_session_id
      [where st = "relay_init (fst (createSession Map.empty 0 ''s'' 60))" and now = 1 and ws = 1
         and message = "auth_msg ''s'' (Some ''right'')" and p = None
         and ?m1.0 = "auth_msg ''s'' (Some ''right'')" and ?m2.0 = "auth_msg ''s'' (Some ''wrong'')"]
    by blast
qed

section \<open>The registry holds sets\<close>

lemma distinct_set_add: "distinct cs \<Longrightarrow> distinct (set_add cs c)"
  by (simp add: set_add_def)

lemma sessions_distinct_member:
  "sessions_distinct st \<Longrightarrow> sessions st sid = Some cs \<Longrightarrow> distinct cs"
  by (auto simp: sessions_distinct_def)

lemma sessions_distinct_handleAuth:
  assumes "sessions_distinct st"
  shows "sessions_distinct (handleAuth st now ws message)"
proof -
  have a: "\<And>sid cs P. sessions st sid = Some cs \<Longrightarrow> distinct (set_add (filter P cs) ws)"
    using assms by (simp add: distinct_set_add sessions_distinct_member)
  have b: "\<And>sid cs P. sessions st sid = Some cs \<Longrightarrow> distinct (filter P cs)"
    using assms by (simp add: sessions_distinct_member)
  have c: "\<And>sid cs. sessions st sid = Some cs \<Longrightarrow> distinct cs"
    using assms by (simp add: sessions_distinct_member)
  have e: "distinct (set_add [] ws)" by (simp add: set_add_def)
  show ?thesis
    unfolding sessions_distinct_def handleAuth_def Let_def
    by (auto simp: a b c e split: option.splits prod.splits if_splits)
qed

lemma sessions_distinct_handleDisconnect:
  assumes "sessions_distinct st"
  shows "sessions_distinct (handleDisconnect st now ws)"
proof -
  have c: "\<And>sid cs. sessions st sid = Some cs \<Longrightarrow> distinct cs"
    using assms by (simp add: sessions_distinct_member)
  show ?thesis
    unfolding sessions_distinct_def handleDisconnect_def Let_def
    by (auto simp: c distinct_removeAll split: option.splits if_splits)
qed

lemma sessions_distinct_step:
  "sessions_distinct st \<Longrightarrow> sessions_distinct (relay_step st ev)"
proof (cases ev)
  case (Message now ws message)
  assume "sessions_distinct st"
  then show ?thesis
    unfolding Message relay_step.simps handleMessage_def
    by (auto simp: sessions_distinct_handleAuth)
       (simp_all add: sessions_distinct_def relayMessage_def relay_loop_fields split: option.splits)
next
  case (Close now ws)
  assume "sessions_distinct st"
  then show ?thesis by (simp add: Close sessions_distinct_handleDisconnect)
next
  case (Transport ws rs)
  assume "sessions_distinct st"
  then show ?thesis by (simp add: Transport sessions_distinct_def)
qed

lemma sessions_distinct_run:
  "sessions_distinct st \<Longrightarrow> sessions_distinct (relay_run st evs)"
  unfolding relay_run_def by (induction evs arbitrary: st) (simp_all add: sessions_distinct_step)

lemma sessions_distinct_init: "sessions_distinct (relay_init r)"
  by (simp add: sessions_distinct_def relay_init_def)

section \<open>Relaying\<close>

lemma relayMessage_authenticated:
  assumes "clients st ws = Some info" "authenticated info" "sessions st (sessionId info) = Some cs"
  shows "relayMessage st ws message =
     foldl (\<lambda>s client. if client \<noteq> ws \<and> readyState s client = WS_OPEN
                        then send s client (Forward message) else s) st cs"
  using assms by (simp add: relayMessage_def)

lemma two_peers_num_state:
  "two_peers_num =
     \<lparr>clients = [2 \<mapsto> \<lparr>sessionId = ''s'', role = initiator, info_ws = 2, authenticated = True\<rparr>,
                 3 \<mapsto> \<lparr>sessionId = ''s'', role = responder, info_ws = 3, authenticated = True\<rparr>],
      sessions = [''s'' \<mapsto> [2, 3]],
      store = [getKey ''s'' \<mapsto>
                 \<lparr>entry_value = \<lparr>session_id = ''s'', expires_at = 60000, status = CLOSED,
                                  participant_count = 2, created_at = 0\<rparr>,
                  entry_ttl = 59, entry_set_at = 20\<rparr>],
      readyState = (\<lambda>ws. WS_OPEN),
      sent = (\<lambda>ws. [])(2 := [AuthOk True initiator 1, Ready 2],
                          3 := [AuthOk True responder 2, Ready 2])\<rparr>"
  by (simp add: two_peers_num_def relay_eval store_eval fun_eq_iff)

lemma two_peers_num_fields:
  "clients two_peers_num 2 =
     Some \<lparr>sessionId = ''s'', role = initiator, info_ws = 2, authenticated = True\<rparr>"
  "sessions two_peers_num ''s'' = Some [2, 3]"
  "readyState two_peers_num = (\<lambda>ws. WS_OPEN)"
  "sent two_peers_num 2 = [AuthOk True initiator 1, Ready 2]"
  "sent two_peers_num 3 = [AuthOk True responder 2, Ready 2]"
  by (simp_all add: two_peers_num_state)

lemma wire_two_peers_num:
  \<open>wire sample_json two_peers_num 3 =
     [''{"type":"auth","payload":{"success":true,"role":"responder","participant_count":2}}'',
      ''{"type":"ready","payload":{"participants":2}}'']\<close>
  by (simp add: wire_def two_peers_num_fields sample_eval)

lemma handleMessage_forwards:
  "(m_type message = ''offer'' \<or> m_type message = ''answer'' \<or> m_type message = ''ice-candidate'') \<and>
   clients st ws = Some info \<and> authenticated info \<and>
   sessions st (sessionId info) = Some cs \<and> distinct cs \<longrightarrow>
     (\<forall>peer. peer \<in> set cs \<and> peer \<noteq> ws \<and> readyState st peer = WS_OPEN \<longrightarrow>
        sent (handleMessage st now ws message) peer = sent st peer @ [Forward message]) \<and>
     (\<forall>c. \<not> (c \<in> set cs \<and> c \<noteq> ws \<and> readyState st c = WS_OPEN) \<longrightarrow>
        sent (handleMessage st now ws message) c = sent st c) \<and>
     clients (handleMessage st now ws message) = clients st \<and>
     sessions (handleMessage st now ws message) = sessions st \<and>
     store (handleMessage st now ws message) = store st \<and>
     readyState (handleMessage st now ws message) = readyState st"
proof (intro impI)
  assume a: "(m_type message = ''offer'' \<or> m_type message = ''answer'' \<or> m_type message = ''ice-candidate'') \<and>
   clients st ws = Some info \<and> authenticated info \<and>
   sessions st (sessionId info) = Some cs \<and> distinct cs"
  then have t: "m_type message \<noteq> ''auth''" by auto
  from a have h: "handleMessage st now ws message = relayMessage st ws message"
    by (auto simp: handleMessage_def)
  from a have r: "relayMessage st ws message =
     foldl (\<lambda>s client. if client \<noteq> ws \<and> readyState s client = WS_OPEN
                        then send s client (Forward message) else s) st cs"
    by (simp add: relayMessage_authenticated)
  from a have d: "distinct cs" by simp
  show "(\<forall>peer. peer \<in> set cs \<and> peer \<noteq> ws \<and> readyState st peer = WS_OPEN \<longrightarrow>
        sent (handleMessage st now ws message) peer = sent st peer @ [Forward message]) \<and>
     (\<forall>c. \<not> (c \<in> set cs \<and> c \<noteq> ws \<and> readyState st c = WS_OPEN) \<longrightarrow>
        sent (handleMessage st now ws message) c = sent st c) \<and>
     clients (handleMessage st now ws message) = clients st \<and>
     sessions (handleMessage st now ws message) = sessions st \<and>
     store (handleMessage st now ws message) = store st \<and>
     readyState (handleMessage st now ws message) = readyState st"
    unfolding h r
    by (simp add: relay_loop_fields relay_loop_sent count_list_distinct[OF d])
qed

text \<open>
  C2, amended. Let a frame arrive on an authenticated socket and parse to an \<open>offer\<close>,
  \<open>answer\<close> or \<open>ice-candidate\<close> message. Every other member of the sender's session whose
  socket is open is sent exactly one frame, \<open>JSON.stringify\<close> of the message
  \<open>JSON.parse\<close> made of the frame that arrived, and nobody else is sent anything; the
  relay's \<open>clients\<close>, \<open>sessions\<close> and store stay as they are. The frame delivered parses
  to the message the relay parsed, type and payload, whenever \<open>JSON.parse\<close> undoes
  \<open>JSON.stringify\<close> on it; it is byte for byte the frame that arrived when that frame
  is what \<open>JSON.stringify\<close> writes for the message. Whatever the payload is, the relay
  reads nothing of it: the statement holds for every type of payload and every pair of
  functions for \<open>JSON.parse\<close> and \<open>JSON.stringify\<close>.
\<close>

theorem relay_delivers_reserialised_frame:
  "JSON_parse J data = Some message \<and>
   (m_type message = ''offer'' \<or> m_type message = ''answer'' \<or> m_type message = ''ice-candidate'') \<and>
   clients st ws = Some info \<and> authenticated info \<and>
   sessions st (sessionId info) = Some cs \<and> distinct cs \<longrightarrow>
     (\<forall>peer. peer \<in> set cs \<and> peer \<noteq> ws \<and> readyState st peer = WS_OPEN \<longrightarrow>
        sent (onMessage J st now ws data) peer = sent st peer @ [Forward message] \<and>
        wire J (onMessage J st now ws data) peer =
          wire J st peer @ [JSON_stringify J (Forward message)] \<and>
        (JSON_parse J (JSON_stringify J (Forward message)) = Some message \<longrightarrow>
           JSON_parse J (last (wire J (onMessage J st now ws data) peer)) = JSON_parse J data) \<and>
        (JSON_stringify J (Forward message) = data \<longrightarrow>
           last (wire J (onMessage J st now ws data) peer) = data)) \<and>
     (\<forall>c. \<not> (c \<in> set cs \<and> c \<noteq> ws \<and> readyState st c = WS_OPEN) \<longrightarrow>
        wire J (onMessage J st now ws data) c = wire J st c) \<and>
     clients (onMessage J st now ws data) = clients st \<and>
     sessions (onMessage J st now ws data) = sessions st \<and>
     store (onMessage J st now ws data) = store st \<and>
     readyState (onMessage J st now ws data) = readyState st"
proof (intro impI)
  assume a: "JSON_parse J data = Some message \<and>
   (m_type message = ''offer'' \<or> m_type message = ''answer'' \<or> m_type message = ''ice-candidate'') \<and>
   clients st ws = Some info \<and> authenticated info \<and>
   sessions st (sessionId info) = Some cs \<and> distinct cs"
  then have o: "onMessage J st now ws data = handleMessage st now ws message"
    by (simp add: onMessage_def)
  from a have p: "JSON_parse J data = Some message" by simp
  from a have b: "(m_type message = ''offer'' \<or> m_type message = ''answer'' \<or> m_type message = ''ice-candidate'') \<and>
   clients st ws = Some info \<and> authenticated info \<and>
   sessions st (sessionId info) = Some cs \<and> distinct cs" by simp
  note f = handleMessage_forwards[rule_format, OF b, of now]
  have s1: "\<And>peer. peer \<in> set cs \<and> peer \<noteq> ws \<and> readyState st peer = WS_OPEN \<Longrightarrow>
        sent (handleMessage st now ws message) peer = sent st peer @ [Forward message]"
    using f by blast
  have s2: "\<And>c. \<not> (c \<in> set cs \<and> c \<noteq> ws \<and> readyState st c = WS_OPEN) \<Longrightarrow>
        sent (handleMessage st now ws message) c = sent st c"
    using f by blast
  show "(\<forall>peer. peer \<in> set cs \<and> peer \<noteq> ws \<and> readyState st peer = WS_OPEN \<longrightarrow>
        sent (onMessage J st now ws data) peer = sent st peer @ [Forward message] \<and>
        wire J (onMessage J st now ws data) peer =
          wire J st peer @ [JSON_stringify J (Forward message)] \<and>
        (JSON_parse J (JSON_stringify J (Forward message)) = Some message \<longrightarrow>
           JSON_parse J (last (wire J (onMessage J st now ws data) peer)) = JSON_parse J data) \<and>
        (JSON_stringify J (Forward message) = data \<longrightarrow>
           last (wire J (onMessage J st now ws data) peer) = data)) \<and>
     (\<forall>c. \<not> (c \<in> set cs \<and> c \<noteq> ws \<and> readyState st c = WS_OPEN) \<longrightarrow>
        wire J (onMessage J st now ws data) c = wire J st c) \<and>
     clients (onMessage J st now ws data) = clients st \<and>
     sessions (onMessage J st now ws data) = sessions st \<and>
     store (onMessage J st now ws data) = store st \<and>
     readyState (onMessage J st now ws data) = readyState st"
    unfolding o using f p by (auto simp: wire_def s1 s2)
qed

theorem relay_delivers_reserialised_frame_witness:
  \<open>JSON_parse sample_json ''{"type":"offer","payload":42}'' =
     Some \<lparr>m_type = ''offer'', m_sessionId = None, m_proof = None, m_payload = Some 42\<rparr> \<and>
   clients two_peers_num 2 =
     Some \<lparr>sessionId = ''s'', role = initiator, info_ws = 2, authenticated = True\<rparr> \<and>
   sessions two_peers_num ''s'' = Some [2, 3] \<and>
   readyState two_peers_num 3 = WS_OPEN \<and>
   JSON_stringify sample_json
       (Forward \<lparr>m_type = ''offer'', m_sessionId = None, m_proof = None, m_payload = Some 42\<rparr>) =
     ''{"type":"offer","payload":42}'' \<and>
   wire sample_json (onMessage sample_json two_peers_num 50 2 ''{"type":"offer","payload":42}'') 3 =
     [''{"type":"auth","payload":{"success":true,"role":"responder","participant_count":2}}'',
      ''{"type":"ready","payload":{"participants":2}}'',
      ''{"type":"offer","payload":42}''] \<and>
   wire sample_json (onMessage sample_json two_peers_num 50 2 ''{"type":"offer","payload":42}'') 2 =
     wire sample_json two_peers_num 2\<close>
proof -
  have p: \<open>JSON_parse sample_json ''{"type":"offer","payload":42}'' =
     Some \<lparr>m_type = ''offer'', m_sessionId = None, m_proof = None, m_payload = Some 42\<rparr>\<close>
    by (simp add: sample_eval)
  have s: \<open>JSON_stringify sample_json
       (Forward \<lparr>m_type = ''offer'', m_sessionId = None, m_proof = None, m_payload = Some 42\<rparr>) =
     ''{"type":"offer","payload":42}''\<close>
    by (simp add: sample_eval)
  note t = relay_delivers_reserialised_frame
    [where J = sample_json and data = \<open>''{"type":"offer","payload":42}''\<close>
       and message = "\<lparr>m_type = ''offer'', m_sessionId = None, m_proof = None, m_payload = Some 42\<rparr>"
       and st = two_peers_num and ws = 2 and now = 50 and cs = "[2, 3]"
       and info = "\<lparr>sessionId = ''s'', role = initiator, info_ws = 2, authenticated = True\<rparr>"]
  have h:
    \<open>wire sample_json (onMessage sample_json two_peers_num 50 2 ''{"type":"offer","payload":42}'') 3 =
       wire sample_json two_peers_num 3 @
       [JSON_stringify sample_json
          (Forward \<lparr>m_type = ''offer'', m_sessionId = None, m_proof = None, m_payload = Some 42\<rparr>)]\<close>
    \<open>wire sample_json (onMessage sample_json two_peers_num 50 2 ''{"type":"offer","payload":42}'') 2 =
       wire sample_json two_peers_num 2\<close>
    using t p by (simp_all add: two_peers_num_fields)
  show ?thesis
    using p s h by (simp add: two_peers_num_fields wire_two_peers_num)
qed

text \<open>
  Counterexample to C2 as stated (the payload is delivered byte for byte as it was sent):
  the frame sent carries the number 9007199254740993, which is no double; \<open>JSON.parse\<close>
  reads 9007199254740992, and that is what the frame delivered to the peer carries.
\<close>

theorem relay_changes_bytes_of_payload:
  \<open>sessions two_peers_num ''s'' = Some [2, 3] \<and>
   readyState two_peers_num 3 = WS_OPEN \<and>
   wire sample_json
       (onMessage sample_json two_peers_num 50 2 ''{"type":"offer","payload":9007199254740993}'') 3 =
     [''{"type":"auth","payload":{"success":true,"role":"responder","participant_count":2}}'',
      ''{"type":"ready","payload":{"participants":2}}'',
      ''{"type":"offer","payload":9007199254740992}''] \<and>
   ''{"type":"offer","payload":9007199254740992}'' \<noteq>
     ''{"type":"offer","payload":9007199254740993}''\<close>
proof -
  have p: \<open>JSON_parse sample_json ''{"type":"offer","payload":9007199254740993}'' =
     Some \<lparr>m_type = ''offer'', m_sessionId = None, m_proof = None, m_payload = Some 9007199254740992\<rparr>\<close>
    by (simp add: sample_eval)
  have o: \<open>onMessage sample_json two_peers_num 50 2 ''{"type":"offer","payload":9007199254740993}'' =
     handleMessage two_peers_num 50 2
       \<lparr>m_type = ''offer'', m_sessionId = None, m_proof = None, m_payload = Some 9007199254740992\<rparr>\<close>
    by (simp add: onMessage_def p)
  have s: \<open>sent (handleMessage two_peers_num 50 2
       \<lparr>m_type = ''offer'', m_sessionId = None, m_proof = None, m_payload = Some 9007199254740992\<rparr>) 3 =
     [AuthOk True responder 2, Ready 2,
      Forward \<lparr>m_type = ''offer'', m_sessionId = None, m_proof = None, m_payload = Some 9007199254740992\<rparr>]\<close>
    by (simp add: two_peers_num_state handleMessage_def relayMessage_def send_def)
  show ?thesis
    unfolding o wire_def s by (simp add: two_peers_num_fields sample_eval)
qed

section \<open>A full session\<close>

lemma handleAuth_not_found:
  assumes "m_sessionId message = Some sid" "sid \<noteq> []" "snd (getSession (store st) now sid) = None"
  shows "handleAuth st now ws message =
     sendError (st\<lparr>store := fst (getSession (store st) now sid)\<rparr>) ws ''Session expired or not found''"
  using assms by (cases "getSession (store st) now sid") (simp add: handleAuth_def)

lemma handleAuth_full:
  assumes "m_sessionId message = Some sid" "sid \<noteq> []"
    "redis_get (store st) now (getKey sid) = Some s" "now \<le> expires_at s"
    "sessions st sid = Some [a, b]" "readyState st a = WS_OPEN" "readyState st b = WS_OPEN"
  shows "handleAuth st now ws message = sendError st ws ''Session is full''"
proof -
  have g: "getSession (store st) now sid = (store st, Some s)"
    using assms(3,4) by (simp add: getSession_Some_iff)
  have ns: "\<not> is_stale st a" "\<not> is_stale st b"
    using assms(6,7) by (simp_all add: is_stale_def)
  have c: "(\<lambda>client. if client \<in> set [a, b] \<and> is_stale st client then None else clients st client)
             = clients st"
    using ns by auto
  have m: "(sessions st)(sid \<mapsto> [a, b]) = sessions st"
    using assms(5) by (rule map_upd_triv)
  show ?thesis
    using assms(1,2,5) ns
    by (simp add: handleAuth_def g Let_def c[simplified] m)
qed

text \<open>
  C4, amended. Let a session have two registered sockets, both open, and let an \<open>auth\<close>
  message for it arrive on a socket. When the store holds an unexpired record of the
  session, the attempt is answered with the error \<open>Session is full\<close>; when the record is
  missing or has expired, it is answered with \<open>Session expired or not found\<close>. In both
  cases the error goes to the attempting socket alone, and \<open>clients\<close>, the registry entry
  of the session and the frames of every other socket stay as they are.
\<close>

theorem third_auth_rejected:
  "m_sessionId message = Some sid \<and> sid \<noteq> [] \<and> sessions st sid = Some [a, b] \<and>
   readyState st a = WS_OPEN \<and> readyState st b = WS_OPEN \<longrightarrow>
     (redis_get (store st) now (getKey sid) = Some s \<and> now \<le> expires_at s \<longrightarrow>
        handleAuth st now ws message = sendError st ws ''Session is full'') \<and>
     (snd (getSession (store st) now sid) = None \<longrightarrow>
        handleAuth st now ws message =
          sendError (st\<lparr>store := fst (getSession (store st) now sid)\<rparr>) ws
            ''Session expired or not found'') \<and>
     clients (handleAuth st now ws message) = clients st \<and>
     sessions (handleAuth st now ws message) = sessions st \<and>
     readyState (handleAuth st now ws message) = readyState st \<and>
     store (handleAuth st now ws message) = fst (getSession (store st) now sid) \<and>
     (\<forall>c. c \<noteq> ws \<longrightarrow> sent (handleAuth st now ws message) c = sent st c) \<and>
     (readyState st ws = WS_OPEN \<longrightarrow>
        sent (handleAuth st now ws message) ws =
          sent st ws @ [Error (if snd (getSession (store st) now sid) = None
                               then ''Session expired or not found'' else ''Session is full'')])"
proof (intro impI)
  assume a: "m_sessionId message = Some sid \<and> sid \<noteq> [] \<and> sessions st sid = Some [a, b] \<and>
   readyState st a = WS_OPEN \<and> readyState st b = WS_OPEN"
  show "(redis_get (store st) now (getKey sid) = Some s \<and> now \<le> expires_at s \<longrightarrow>
        handleAuth st now ws message = sendError st ws ''Session is full'') \<and>
     (snd (getSession (store st) now sid) = None \<longrightarrow>
        handleAuth st now ws message =
          sendError (st\<lparr>store := fst (getSession (store st) now sid)\<rparr>) ws
            ''Session expired or not found'') \<and>
     clients (handleAuth st now ws message) = clients st \<and>
     sessions (handleAuth st now ws message) = sessions st \<and>
     readyState (handleAuth st now ws message) = readyState st \<and>
     store (handleAuth st now ws message) = fst (getSession (store st) now sid) \<and>
     (\<forall>c. c \<noteq> ws \<longrightarrow> sent (handleAuth st now ws message) c = sent st c) \<and>
     (readyState st ws = WS_OPEN \<longrightarrow>
        sent (handleAuth st now ws message) ws =
          sent st ws @ [Error (if snd (getSession (store st) now sid) = None
                               then ''Session expired or not found'' else ''Session is full'')])"
  proof (cases "snd (getSession (store st) now sid)")
    case None
    have h: "handleAuth st now ws message =
       sendError (st\<lparr>store := fst (getSession (store st) now sid)\<rparr>) ws ''Session expired or not found''"
      using a None by (simp add: handleAuth_not_found)
    have n: "\<not> (redis_get (store st) now (getKey sid) = Some s \<and> now \<le> expires_at s)"
      using None by (auto simp: getSession_def)
    show ?thesis
      unfolding h using None n by (auto simp: sent_sendError)
  next
    case (Some s')
    then have g: "getSession (store st) now sid = (store st, Some s')"
      by (cases "getSession (store st) now sid") (simp add: getSession_Some_iff)
    then have l: "redis_get (store st) now (getKey sid) = Some s'" "now \<le> expires_at s'"
      by (simp_all add: getSession_Some_iff)
    have h: "handleAuth st now ws message = sendError st ws ''Session is full''"
      using a l by (simp add: handleAuth_full)
    show ?thesis
      unfolding h using Some g by (simp add: sent_sendError)
  qed
qed

lemma two_peers_record:
  "redis_get (store two_peers) 30 (getKey ''s'') =
     Some \<lparr>session_id = ''s'', expires_at = 60000, status = CLOSED,
           participant_count = 2, created_at = 0\<rparr>"
  "snd (getSession (store two_peers) 30 ''s'') =
     Some \<lparr>session_id = ''s'', expires_at = 60000, status = CLOSED,
           participant_count = 2, created_at = 0\<rparr>"
  "snd (getSession (store two_peers) 100000 ''s'') = None"
  by (simp_all add: getSession_def redis_get_def two_peers_fields)

theorem third_auth_rejected_witness:
  "m_sessionId (auth_msg ''s'' None :: string signaling_message) = Some ''s'' \<and>
   sessions two_peers ''s'' = Some [2, 3] \<and>
   readyState two_peers 2 = WS_OPEN \<and>
   readyState two_peers 3 = WS_OPEN \<and>
   redis_get (store two_peers) 30 (getKey ''s'') =
     Some \<lparr>session_id = ''s'', expires_at = 60000, status = CLOSED,
           participant_count = 2, created_at = 0\<rparr> \<and>
   sent (handleAuth two_peers 30 4 (auth_msg ''s'' None)) 4 =
     [Error ''Session is full''] \<and>
   sessions (handleAuth two_peers 30 4 (auth_msg ''s'' None)) ''s'' = Some [2, 3] \<and>
   sent (handleAuth two_peers 30 4 (auth_msg ''s'' None)) 2 =
     [AuthOk True initiator 1, Ready 2] \<and>
   sent (handleAuth two_peers 30 4 (auth_msg ''s'' None)) 3 =
     [AuthOk True responder 2, Ready 2]"
proof -
  have m: "m_sessionId (auth_msg ''s'' None :: string signaling_message) = Some ''s''"
    by (simp add: auth_msg_def)
  note t = third_auth_rejected
    [where message = "auth_msg ''s'' None :: string signaling_message" and sid = "''s''"
       and st = two_peers and a = 2 and b = 3 and now = 30 and ws = 4
       and s = "\<lparr>session_id = ''s'', expires_at = 60000, status = CLOSED,
           participant_count = 2, created_at = 0\<rparr>"]
  show ?thesis
    using t m by (simp add: two_peers_fields two_peers_record sent_sendError)
qed

text \<open>
  Counterexample to C4 as stated (the third attempt is answered with \<open>Session is full\<close>):
  two sockets authenticate for a session of 60 seconds and stay open; an \<open>auth\<close> message
  on a third socket after the session's expiry is answered with
  \<open>Session expired or not found\<close>.
\<close>

theorem third_auth_after_expiry_not_found:
  "sessions two_peers ''s'' = Some [2, 3] \<and>
   readyState two_peers 2 = WS_OPEN \<and>
   readyState two_peers 3 = WS_OPEN \<and>
   sent (handleAuth two_peers 100000 4 (auth_msg ''s'' None)) 4 =
     [Error ''Session expired or not found''] \<and>
   sent (handleAuth two_peers 100000 4 (auth_msg ''s'' None)) 4 \<noteq> [Error ''Session is full'']"
proof -
  have m: "m_sessionId (auth_msg ''s'' None :: string signaling_message) = Some ''s''"
    by (simp add: auth_msg_def)
  have "handleAuth two_peers 100000 4 (auth_msg ''s'' None) =
     sendError (two_peers\<lparr>store := fst (getSession (store two_peers) 100000 ''s'')\<rparr>) 4
       ''Session expired or not found''"
    using handleAuth_not_found
      [where message = "auth_msg ''s'' None :: string signaling_message" and sid = "''s''"
         and st = two_peers and now = 100000 and ws = 4] m
    by (simp add: two_peers_record)
  then show ?thesis
    by (simp add: two_peers_fields sent_sendError)
qed

section \<open>Accepting a connection\<close>

lemma handleAuth_accept:
  assumes "m_sessionId message = Some sid" "sid \<noteq> []"
    and "redis_get (store st) now (getKey sid) = Some es" "now \<le> expires_at es"
    and "length (live_members st sid) < 2"
    and "joinSession (((\<lambda>r. leaveSession r now sid) ^^ length (stale_members st sid)) (store st))
           now sid = (r3, Some s)"
  shows "handleAuth st now ws message =
     (let new_role = (if length (live_members st sid) = 0 then initiator else responder);
          members = set_add (live_members st sid) ws;
          st3 = st\<lparr>clients := (\<lambda>client. if client \<in> set (registered st sid) \<and> is_stale st client
                                          then None else clients st client)
                                (ws \<mapsto> \<lparr>sessionId = sid, role = new_role, info_ws = ws,
                                         authenticated = True\<rparr>),
                   sessions := (sessions st)(sid \<mapsto> members),
                   store := r3\<rparr>;
          st4 = send st3 ws (AuthOk True new_role (length members))
      in if length members = 2 then send_each st4 members (Ready 2) else st4)"
proof -
  have g: "getSession (store st) now sid = (store st, Some es)"
    using assms(3,4) by (simp add: getSession_Some_iff)
  show ?thesis
  proof (cases "sessions st sid")
    case None
    have j: "joinSession (store st) now sid = (r3, Some s)"
      using assms(6) None by (simp add: stale_members_def registered_def)
    show ?thesis
      using assms(1,2) None
      by (simp add: handleAuth_def g j Let_def live_members_def registered_def)
  next
    case (Some cs)
    have j: "joinSession (((\<lambda>r. leaveSession r now sid) ^^ length (filter (is_stale st) cs))
              (store st)) now sid = (r3, Some s)"
      using assms(6) Some by (simp add: stale_members_def registered_def)
    have l: "\<not> 2 \<le> length (filter (\<lambda>client. \<not> is_stale st client) cs)"
      using assms(5) Some by (simp add: live_members_def registered_def)
    show ?thesis
      using assms(1,2) Some l
      by (simp add: handleAuth_def g j Let_def live_members_def registered_def)
  qed
qed

lemma handleAuth_accept_fields:
  assumes "m_sessionId message = Some sid" "sid \<noteq> []"
    and "redis_get (store st) now (getKey sid) = Some es" "now \<le> expires_at es"
    and "length (live_members st sid) < 2"
    and "joinSession (((\<lambda>r. leaveSession r now sid) ^^ length (stale_members st sid)) (store st))
           now sid = (r3, Some s)"
    and "ws \<notin> set (live_members st sid)" "readyState st ws = WS_OPEN"
  shows "clients (handleAuth st now ws message) =
           (\<lambda>client. if client \<in> set (registered st sid) \<and> is_stale st client
                      then None else clients st client)
           (ws \<mapsto> \<lparr>sessionId = sid,
                    role = (if live_members st sid = [] then initiator else responder),
                    info_ws = ws, authenticated = True\<rparr>)"
    and "sessions (handleAuth st now ws message) =
           (sessions st)(sid \<mapsto> live_members st sid @ [ws])"
    and "store (handleAuth st now ws message) = r3"
    and "sent (handleAuth st now ws message) ws =
           sent st ws @
           AuthOk True (if live_members st sid = [] then initiator else responder)
             (length (live_members st sid) + 1) #
           (if length (live_members st sid) = 1 then [Ready 2] else [])"
proof -
  note h = handleAuth_accept[OF assms(1-6), of ws]
  have m: "set_add (live_members st sid) ws = live_members st sid @ [ws]"
    using assms(7) by (simp add: set_add_def)
  have c: "count_list (live_members st sid) ws = 0"
    using assms(7) by (simp add: count_list_0_iff)
  show "clients (handleAuth st now ws message) =
           (\<lambda>client. if client \<in> set (registered st sid) \<and> is_stale st client
                      then None else clients st client)
           (ws \<mapsto> \<lparr>sessionId = sid,
                    role = (if live_members st sid = [] then initiator else responder),
                    info_ws = ws, authenticated = True\<rparr>)"
    unfolding h by (simp add: Let_def)
  show "sessions (handleAuth st now ws message) =
           (sessions st)(sid \<mapsto> live_members st sid @ [ws])"
    unfolding h by (simp add: Let_def m)
  show "store (handleAuth st now ws message) = r3"
    unfolding h by (simp add: Let_def)
  show "sent (handleAuth st now ws message) ws =
           sent st ws @
           AuthOk True (if live_members st sid = [] then initiator else responder)
             (length (live_members st sid) + 1) #
           (if length (live_members st sid) = 1 then [Ready 2] else [])"
    unfolding h using assms(8) by (simp add: Let_def m sent_send_each sent_send c)
qed

section \<open>Roles\<close>









section \<open>Reconciliation\<close>

lemma redis_get_updateSession:
  "redis_get (updateSession r now s) now (getKey (session_id s)) = Some s"
proof -
  have "0 < max 1 ((expires_at s - now) div 1000)" by linarith
  then have "now < now + max 1 ((expires_at s - now) div 1000) * 1000" by simp
  then show ?thesis by (simp add: updateSession_writes redis_get_def)
qed

lemma leave_repeated:
  assumes "redis_get r now (getKey sid) = Some s" "now \<le> expires_at s" "session_id s = sid"
    "0 \<le> participant_count s"
  shows "\<exists>s'. redis_get (((\<lambda>r. leaveSession r now sid) ^^ k) r) now (getKey sid) = Some s' \<and>
              participant_count s' = max 0 (participant_count s - int k) \<and>
              expires_at s' = expires_at s \<and> session_id s' = sid"
proof (induction k)
  case 0
  with assms show ?case by simp
next
  case (Suc k)
  then obtain s' where s': "redis_get (((\<lambda>r. leaveSession r now sid) ^^ k) r) now (getKey sid) = Some s'"
    "participant_count s' = max 0 (participant_count s - int k)"
    "expires_at s' = expires_at s" "session_id s' = sid"
    by blast
  let ?r = "((\<lambda>r. leaveSession r now sid) ^^ k) r"
  let ?s = "s'\<lparr>participant_count := max 0 (participant_count s' - 1),
               status := status_of_count (max 0 (participant_count s' - 1))\<rparr>"
  have e: "now \<le> expires_at s'" using s'(3) assms(2) by simp
  have l: "leaveSession ?r now sid = updateSession ?r now ?s"
    by (rule leaveSession_live[OF s'(1) e])
  have i: "session_id ?s = sid" using s'(4) by simp
  have "redis_get (updateSession ?r now ?s) now (getKey (session_id ?s)) = Some ?s"
    by (rule redis_get_updateSession)
  then have g: "redis_get (leaveSession ?r now sid) now (getKey sid) = Some ?s"
    unfolding l i .
  have c: "participant_count ?s = max 0 (participant_count s - int (Suc k))"
    using s'(2) by simp
  show ?case
    using g c s'(3) i by (intro exI[of _ ?s]) simp
qed

lemma stale_member_counted:
  "a \<in> set (registered st sid) \<Longrightarrow> is_stale st a \<Longrightarrow> 1 \<le> length (stale_members st sid)"
  by (auto simp: stale_members_def Suc_le_eq filter_empty_conv)

text \<open>
  C6, amended. Let a member of the session be registered whose socket is closing or
  closed, and let an \<open>auth\<close> message for the session arrive on an open socket that is not
  registered, while the store holds an unexpired record of the session with a count
  between 0 and 2 and fewer than two live members are registered. Then every stale member
  is removed from \<open>clients\<close> and from the registry, \<open>leaveSession\<close> runs once for each
  of them before the one \<open>joinSession\<close>, the stored count ends at most 2, and the new socket is
  accepted: as \<open>initiator\<close> when no live member remains, as \<open>responder\<close> when one does.
\<close>

theorem stale_member_evicted_on_auth:
  "m_sessionId message = Some sid \<and> sid \<noteq> [] \<and>
   a \<in> set (registered st sid) \<and> is_stale st a \<and>
   length (live_members st sid) < 2 \<and>
   ws \<notin> set (registered st sid) \<and> readyState st ws = WS_OPEN \<and>
   redis_get (store st) now (getKey sid) = Some s \<and> now \<le> expires_at s \<and>
   session_id s = sid \<and> 0 \<le> participant_count s \<and> participant_count s \<le> 2 \<longrightarrow>
     (\<forall>c. c \<in> set (registered st sid) \<and> is_stale st c \<longrightarrow>
          clients (handleAuth st now ws message) c = None) \<and>
     sessions (handleAuth st now ws message) sid = Some (live_members st sid @ [ws]) \<and>
     store (handleAuth st now ws message) =
       fst (joinSession
              (((\<lambda>r. leaveSession r now sid) ^^ length (stale_members st sid)) (store st))
              now sid) \<and>
     (\<exists>e. store (handleAuth st now ws message) (getKey sid) = Some e \<and>
          participant_count (entry_value e) =
            max 0 (participant_count s - int (length (stale_members st sid))) + 1 \<and>
          participant_count (entry_value e) \<le> 2) \<and>
     clients (handleAuth st now ws message) ws =
       Some \<lparr>sessionId = sid,
             role = (if live_members st sid = [] then initiator else responder),
             info_ws = ws, authenticated = True\<rparr> \<and>
     sent (handleAuth st now ws message) ws =
       sent st ws @
       AuthOk True (if live_members st sid = [] then initiator else responder)
         (length (live_members st sid) + 1) #
       (if length (live_members st sid) = 1 then [Ready 2] else [])"
proof (intro impI)
  assume a: "m_sessionId message = Some sid \<and> sid \<noteq> [] \<and>
   a \<in> set (registered st sid) \<and> is_stale st a \<and>
   length (live_members st sid) < 2 \<and>
   ws \<notin> set (registered st sid) \<and> readyState st ws = WS_OPEN \<and>
   redis_get (store st) now (getKey sid) = Some s \<and> now \<le> expires_at s \<and>
   session_id s = sid \<and> 0 \<le> participant_count s \<and> participant_count s \<le> 2"
  let ?k = "length (stale_members st sid)"
  let ?r2 = "((\<lambda>r. leaveSession r now sid) ^^ ?k) (store st)"
  from a have b: "m_sessionId message = Some sid" "sid \<noteq> []"
    "redis_get (store st) now (getKey sid) = Some s" "now \<le> expires_at s"
    "length (live_members st sid) < 2" "readyState st ws = WS_OPEN"
    "session_id s = sid" "0 \<le> participant_count s" "participant_count s \<le> 2"
    "ws \<notin> set (registered st sid)"
    by simp_all
  from a have "a \<in> set (registered st sid)" "is_stale st a" by simp_all
  then have k: "1 \<le> ?k" by (rule stale_member_counted)
  from b(10) have nl: "ws \<notin> set (live_members st sid)" by (simp add: live_members_def)
  obtain s' where s': "redis_get ?r2 now (getKey sid) = Some s'"
    "participant_count s' = max 0 (participant_count s - int ?k)"
    "expires_at s' = expires_at s" "session_id s' = sid"
    using leave_repeated[OF b(3,4,7,8), of ?k] by blast
  have lt: "participant_count s' < 2" using s'(2) b(9) k by simp
  have e: "now \<le> expires_at s'" using s'(3) b(4) by simp
  let ?s2 = "s'\<lparr>participant_count := participant_count s' + 1,
           status := (if participant_count s' = 0 then JOINED
                      else if participant_count s' = 1 then CLOSED else status s')\<rparr>"
  have j: "joinSession ?r2 now sid = (updateSession ?r2 now ?s2, Some ?s2)"
    by (rule joinSession_accept[OF s'(1) e lt])
  note f = handleAuth_accept_fields[OF b(1-5) j nl b(6)]
  have st: "store (handleAuth st now ws message) = fst (joinSession ?r2 now sid)"
    by (simp add: f(3) j)
  have en: "store (handleAuth st now ws message) (getKey sid) =
      Some \<lparr>entry_value = ?s2, entry_ttl = max 1 ((expires_at ?s2 - now) div 1000),
            entry_set_at = now\<rparr>"
    using s'(4) by (simp add: f(3) updateSession_writes)
  have ev: "\<forall>c. c \<in> set (registered st sid) \<and> is_stale st c \<longrightarrow>
          clients (handleAuth st now ws message) c = None"
    using b(10) by (auto simp: f(1))
  have cnt: "participant_count ?s2 = max 0 (participant_count s - int ?k) + 1"
    "participant_count ?s2 \<le> 2"
    using s'(2) lt by simp_all
  show "(\<forall>c. c \<in> set (registered st sid) \<and> is_stale st c \<longrightarrow>
          clients (handleAuth st now ws message) c = None) \<and>
     sessions (handleAuth st now ws message) sid = Some (live_members st sid @ [ws]) \<and>
     store (handleAuth st now ws message) =
       fst (joinSession
              (((\<lambda>r. leaveSession r now sid) ^^ length (stale_members st sid)) (store st))
              now sid) \<and>
     (\<exists>e. store (handleAuth st now ws message) (getKey sid) = Some e \<and>
          participant_count (entry_value e) =
            max 0 (participant_count s - int (length (stale_members st sid))) + 1 \<and>
          participant_count (entry_value e) \<le> 2) \<and>
     clients (handleAuth st now ws message) ws =
       Some \<lparr>sessionId = sid,
             role = (if live_members st sid = [] then initiator else responder),
             info_ws = ws, authenticated = True\<rparr> \<and>
     sent (handleAuth st now ws message) ws =
       sent st ws @
       AuthOk True (if live_members st sid = [] then initiator else responder)
         (length (live_members st sid) + 1) #
       (if length (live_members st sid) = 1 then [Ready 2] else [])"
  proof (intro conjI)
    show "\<forall>c. c \<in> set (registered st sid) \<and> is_stale st c \<longrightarrow>
          clients (handleAuth st now ws message) c = None" by (rule ev)
    show "sessions (handleAuth st now ws message) sid = Some (live_members st sid @ [ws])"
      by (simp add: f(2))
    show "store (handleAuth st now ws message) = fst (joinSession ?r2 now sid)" by (rule st)
    show "\<exists>e. store (handleAuth st now ws message) (getKey sid) = Some e \<and>
          participant_count (entry_value e) =
            max 0 (participant_count s - int (length (stale_members st sid))) + 1 \<and>
          participant_count (entry_value e) \<le> 2"
      using en cnt by simp
    show "clients (handleAuth st now ws message) ws =
       Some \<lparr>sessionId = sid,
             role = (if live_members st sid = [] then initiator else responder),
             info_ws = ws, authenticated = True\<rparr>"
      by (simp add: f(1))
    show "sent (handleAuth st now ws message) ws =
       sent st ws @
       AuthOk True (if live_members st sid = [] then initiator else responder)
         (length (live_members st sid) + 1) #
       (if length (live_members st sid) = 1 then [Ready 2] else [])"
      by (rule f(4))
  qed
qed

theorem stale_member_evicted_on_auth_witness:
  "registered one_peer_dead ''s'' = [2] \<and> is_stale one_peer_dead 2 \<and>
   readyState one_peer_dead 4 = WS_OPEN \<and>
   redis_get (store one_peer_dead) 30 (getKey ''s'') =
     Some \<lparr>session_id = ''s'', expires_at = 60000, status = JOINED,
           participant_count = 1, created_at = 0\<rparr> \<and>
   clients (handleAuth one_peer_dead 30 4 (auth_msg ''s'' None)) 2 = None \<and>
   sessions (handleAuth one_peer_dead 30 4 (auth_msg ''s'' None)) ''s'' = Some [4] \<and>
   store (handleAuth one_peer_dead 30 4 (auth_msg ''s'' None)) =
     fst (joinSession (leaveSession (store one_peer_dead) 30 ''s'') 30 ''s'') \<and>
   clients (handleAuth one_peer_dead 30 4 (auth_msg ''s'' None)) 4 =
     Some \<lparr>sessionId = ''s'', role = initiator, info_ws = 4, authenticated = True\<rparr> \<and>
   sent (handleAuth one_peer_dead 30 4 (auth_msg ''s'' None)) 4 = [AuthOk True initiator 1]"
proof -
  have r: "registered one_peer_dead ''s'' = [2]"
    by (simp add: registered_def one_peer_dead_fields)
  have i: "is_stale one_peer_dead 2"
    by (simp add: is_stale_def one_peer_dead_fields)
  have l: "live_members one_peer_dead ''s'' = []" "stale_members one_peer_dead ''s'' = [2]"
    by (simp_all add: live_members_def stale_members_def r i)
  have g: "redis_get (store one_peer_dead) 30 (getKey ''s'') =
     Some \<lparr>session_id = ''s'', expires_at = 60000, status = JOINED,
           participant_count = 1, created_at = 0\<rparr>"
    by (simp add: redis_get_def one_peer_dead_fields)
  have m: "m_sessionId (auth_msg ''s'' None :: string signaling_message) = Some ''s''"
    by (simp add: auth_msg_def)
  note t = stale_member_evicted_on_auth
    [where message = "auth_msg ''s'' None :: string signaling_message" and sid = "''s''"
       and st = one_peer_dead and now = 30 and ws = 4 and a = 2
       and s = "\<lparr>session_id = ''s'', expires_at = 60000, status = JOINED,
           participant_count = 1, created_at = 0\<rparr>"]
  show ?thesis
    using t r i l g m by (simp add: one_peer_dead_fields)
qed

text \<open>
  Counterexample to C6 as stated (the newcomer is accepted as \<open>responder\<close>): one socket
  authenticates, its transport closes without a close event, and \<open>auth\<close> arrives on another
  socket. The stale member is evicted, no live member remains, and the newcomer is
  acknowledged as \<open>initiator\<close>.
\<close>

theorem newcomer_after_eviction_is_initiator:
  "relay_run one_peer [Transport 2 WS_CLOSED] = one_peer_dead \<and>
   sent (relay_run one_peer [Transport 2 WS_CLOSED, Message 30 4 (auth_msg ''s'' None)]) 4 =
     [AuthOk True initiator 1] \<and>
   clients (relay_run one_peer [Transport 2 WS_CLOSED, Message 30 4 (auth_msg ''s'' None)]) 4 =
     Some \<lparr>sessionId = ''s'', role = initiator, info_ws = 4, authenticated = True\<rparr> \<and>
   clients (relay_run one_peer [Transport 2 WS_CLOSED, Message 30 4 (auth_msg ''s'' None)]) 2 = None \<and>
   map_option role
     (clients (relay_run one_peer [Transport 2 WS_CLOSED, Message 30 4 (auth_msg ''s'' None)]) 4) \<noteq>
     Some responder"
  by (simp add: one_peer_dead_def one_peer_state relay_eval store_eval)

end
